theory Spec2Isabelle
  imports Complex_Main
begin

section \<open>Python values used by \<^verbatim>\<open>src/model.py\<close>\<close>

text \<open>
  The module raises no exception of its own: every failure of the loader is one of
  Python's built-in exceptions. They are the left summand of every result below.
\<close>

datatype py_error =
    ValueError | IndexError | KeyError | TypeError | AssertionError | IOError | RuntimeError

subsection \<open>Strings\<close>

text \<open>
  Lines are Python 2 byte strings. \<^verbatim>\<open>str.split()\<close> and \<^verbatim>\<open>str.strip()\<close> treat
  space, tab, line feed, vertical tab, form feed and carriage return as whitespace.
\<close>

definition isspace :: "char \<Rightarrow> bool" where
  "isspace c = (c = CHR '' '' \<or> c = CHR 0x09 \<or> c = CHR 0x0A \<or> c = CHR 0x0B
      \<or> c = CHR 0x0C \<or> c = CHR 0x0D)"

definition nonspace :: "char \<Rightarrow> bool" where
  "nonspace c = (\<not> isspace c)"

text \<open>\<^verbatim>\<open>s.strip()\<close>: whitespace removed at both ends.\<close>

definition strip :: "string \<Rightarrow> string" where
  "strip s = rev (dropWhile isspace (rev (dropWhile isspace s)))"

text \<open>\<^verbatim>\<open>s.split()\<close>: the maximal runs of non-whitespace characters, in order.\<close>

function split :: "string \<Rightarrow> string list" where
  "split [] = []"
| "split (c # cs) =
     (if isspace c then split cs
      else (c # takeWhile nonspace cs) # split (dropWhile nonspace cs))"
  by pat_completeness auto
termination
  by (relation "measure length") (auto simp: length_dropWhile_le le_imp_less_Suc)

text \<open>
  \<^verbatim>\<open>s.split(None, 1)\<close>: at most one split. The first token, then the remainder with its
  leading whitespace removed (and nothing when that remainder is empty).
\<close>

definition split_max1 :: "string \<Rightarrow> string list" where
  "split_max1 s =
     (let s1 = dropWhile isspace s in
      if s1 = [] then []
      else
        let rest = dropWhile isspace (dropWhile nonspace s1) in
        if rest = [] then [takeWhile nonspace s1]
        else [takeWhile nonspace s1, rest])"

text \<open>\<^verbatim>\<open>s.split(sep)\<close> for a one-character separator: one more part than separators.\<close>

fun split_sep :: "char \<Rightarrow> string \<Rightarrow> string list" where
  "split_sep sep [] = [[]]"
| "split_sep sep (c # cs) =
     (if c = sep then [] # split_sep sep cs
      else (case split_sep sep cs of
              [] \<Rightarrow> [[c]]
            | t # ts \<Rightarrow> (c # t) # ts))"

subsection \<open>Numbers\<close>

text \<open>
  \<^verbatim>\<open>int(s)\<close> on a token that holds no whitespace (every token here comes out of
  \<^verbatim>\<open>split\<close>): an optional sign and at least one decimal digit, anything else is a
  \<^verbatim>\<open>ValueError\<close>, modelled as \<open>None\<close>. Python integers are unbounded.
\<close>

definition is_digit :: "char \<Rightarrow> bool" where
  "is_digit c = (48 \<le> (of_char c :: nat) \<and> (of_char c :: nat) \<le> 57)"

definition dec_value :: "string \<Rightarrow> nat" where
  "dec_value ds = foldl (\<lambda>a c. 10 * a + ((of_char c :: nat) - 48)) 0 ds"

definition py_digits :: "string \<Rightarrow> nat option" where
  "py_digits ds = (if ds \<noteq> [] \<and> list_all is_digit ds then Some (dec_value ds) else None)"

definition py_int :: "string \<Rightarrow> int option" where
  "py_int s =
     (case s of
        [] \<Rightarrow> None
      | c # cs \<Rightarrow>
          if c = CHR ''-'' then map_option (\<lambda>n. - int n) (py_digits cs)
          else if c = CHR ''+'' then map_option int (py_digits cs)
          else map_option int (py_digits s))"

text \<open>
  \<^verbatim>\<open>xs[i]\<close> on a list: a negative index counts from the end, an index outside the list
  raises \<^verbatim>\<open>IndexError\<close>. The result is the position read.
\<close>

definition getitem_pos :: "'a list \<Rightarrow> int \<Rightarrow> py_error + nat" where
  "getitem_pos xs i =
     (if 0 \<le> i \<and> i < int (length xs) then Inr (nat i)
      else if i < 0 \<and> - int (length xs) \<le> i then Inr (nat (int (length xs) + i))
      else Inl IndexError)"


text \<open>
  \<^verbatim>\<open>float(s)\<close> is Python's own conversion and is taken as a parameter \<open>flt\<close> of the
  loader: \<open>None\<close> stands for its \<^verbatim>\<open>ValueError\<close>. Floats are modelled as reals.
  \<open>float_of_literal\<close> is the conversion restricted to signed decimal integer literals
  (\<^verbatim>\<open>float("2") == 2.0\<close>); it is the instance the concrete evaluations below use.
\<close>

definition float_of_literal :: "string \<Rightarrow> real option" where
  "float_of_literal s = map_option real_of_int (py_int s)"

text \<open>\<^verbatim>\<open>[float(x) for x in tokens]\<close>: the first token that does not convert raises.\<close>

fun floats :: "(string \<Rightarrow> real option) \<Rightarrow> string list \<Rightarrow> py_error + real list" where
  "floats flt [] = Inr []"
| "floats flt (x # xs) =
     (case flt x of
        None \<Rightarrow> Inl ValueError
      | Some r \<Rightarrow> (case floats flt xs of Inl e \<Rightarrow> Inl e | Inr rs \<Rightarrow> Inr (r # rs)))"

section \<open>The data of a model\<close>

text \<open>A \<^verbatim>\<open>numpy.array\<close> of three floats.\<close>

type_synonym vec = "real \<times> real \<times> real"

type_synonym colour = "real list"

record Material =
  ambient :: colour
  diffuse :: colour
  specular :: colour
  emission :: colour

text \<open>
  \<^verbatim>\<open>_Material\<close> defines neither \<^verbatim>\<open>__eq__\<close> nor \<^verbatim>\<open>__hash__\<close>: as a dictionary key an
  instance is its identity. A material object is modelled as the number of
  \<^verbatim>\<open>_Material\<close> objects created before it, paired with its (never reassigned) fields.
\<close>

type_synonym matobj = "nat \<times> Material"

text \<open>
  A point of a face is the pair \<^verbatim>\<open>(vertex, normalv)\<close> of the objects read from
  \<^verbatim>\<open>self.vertices\<close> and \<^verbatim>\<open>self.normals\<close>. The arrays are mutable and shared with the
  tables, so a point holds references: the positions of the two objects in their
  tables (the tables only grow, and every position holds an object of its own).
  Position 0 is the \<^verbatim>\<open>None\<close> both tables start with.
\<close>

type_synonym point = "nat \<times> nat"

text \<open>The value of \<^verbatim>\<open>self.polys\<close> under one key: \<^verbatim>\<open>(triangles, quads, polygons)\<close>.\<close>

type_synonym batch = "point list list \<times> point list list \<times> point list list"

text \<open>
  The attributes of an \<^verbatim>\<open>ObjModel\<close> while \<^verbatim>\<open>_parse_model\<close> runs, together with the
  local variable \<open>currentmat\<close> of that method and the count \<open>created\<close> of
  \<^verbatim>\<open>_Material\<close> objects made so far. \<open>polys\<close> is the \<^verbatim>\<open>defaultdict\<close>, keyed by the
  current material (\<open>None\<close> is Python's \<^verbatim>\<open>None\<close>).
\<close>

record ObjModel =
  vertices :: "vec option list"
  normals :: "vec option list"
  mats :: "string \<rightharpoonup> matobj"
  polys :: "matobj option \<rightharpoonup> batch"
  currentmat :: "matobj option"
  created :: nat

definition new_model :: ObjModel where
  "new_model = \<lparr>vertices = [None], normals = [None], mats = Map.empty,
      polys = Map.empty, currentmat = None, created = 0\<rparr>"

section \<open>\<^verbatim>\<open>_Material.__init__\<close>\<close>

definition default_colour :: colour where
  "default_colour = [0, 0, 0, 0]"

definition Material_init :: "colour \<Rightarrow> colour \<Rightarrow> colour \<Rightarrow> colour \<Rightarrow> py_error + Material" where
  "Material_init a d s e =
     (if length a \<noteq> 4 then Inl AssertionError
      else if length d \<noteq> 4 then Inl AssertionError
      else if length s \<noteq> 4 then Inl AssertionError
      else if length e \<noteq> 4 then Inl AssertionError
      else Inr \<lparr>ambient = a, diffuse = d, specular = s, emission = e\<rparr>)"

text \<open>\<^verbatim>\<open>_Material(*mat)\<close>: two to four positional arguments, the last two defaulted.\<close>

definition Material_call :: "colour list \<Rightarrow> py_error + Material" where
  "Material_call args =
     (case args of
        [a, d] \<Rightarrow> Material_init a d default_colour default_colour
      | [a, d, s] \<Rightarrow> Material_init a d s default_colour
      | [a, d, s, e] \<Rightarrow> Material_init a d s e
      | _ \<Rightarrow> Inl TypeError)"

section \<open>\<^verbatim>\<open>ObjModel._parsemat\<close>\<close>

text \<open>The locals \<^verbatim>\<open>matname\<close> and \<^verbatim>\<open>mat\<close> of the method, and the object.\<close>

record matloop =
  matname :: "string option"
  mat :: "colour list option"
  self :: ObjModel

text \<open>\<^verbatim>\<open>self.mats[matname] = _Material(*mat)\<close>.\<close>

definition save_mat :: "string \<Rightarrow> colour list option \<Rightarrow> ObjModel \<Rightarrow> py_error + ObjModel" where
  "save_mat name m ob =
     (case m of
        None \<Rightarrow> Inl TypeError
      | Some args \<Rightarrow>
          (case Material_call args of
             Inl e \<Rightarrow> Inl e
           | Inr new \<Rightarrow>
               Inr (ob\<lparr>mats := (mats ob)(name \<mapsto> (created ob, new)),
                       created := Suc (created ob)\<rparr>)))"

text \<open>\<^verbatim>\<open>if matname: self.mats[matname] = _Material(*mat)\<close>: \<^verbatim>\<open>None\<close> and \<^verbatim>\<open>''\<close> are false.\<close>

definition save_existing :: "matloop \<Rightarrow> py_error + ObjModel" where
  "save_existing st =
     (case matname st of
        None \<Rightarrow> Inr (self st)
      | Some name \<Rightarrow> if name = [] then Inr (self st) else save_mat name (mat st) (self st))"

text \<open>Lines 148 to 152: the expansion of the colour list.\<close>

definition expand_colour :: "colour \<Rightarrow> colour" where
  "expand_colour color =
     (if length color = 1 then (color @ color @ color) @ [0]
      else if length color = 3 then color @ [0]
      else color)"

text \<open>The dictionary \<^verbatim>\<open>m = {'a':0, 'd':1, 's':2, 'e':3}\<close>.\<close>

definition channel :: "char \<Rightarrow> nat option" where
  "channel c =
     (if c = CHR ''a'' then Some 0
      else if c = CHR ''d'' then Some 1
      else if c = CHR ''s'' then Some 2
      else if c = CHR ''e'' then Some 3
      else None)"

text \<open>
  \<^verbatim>\<open>mat[m[line[1]]] = color\<close>. Python evaluates \<^verbatim>\<open>line[1]\<close>, then the lookup in \<open>m\<close>
  (a \<^verbatim>\<open>KeyError\<close>), and only then stores into \<^verbatim>\<open>mat\<close> (a \<^verbatim>\<open>TypeError\<close> when \<^verbatim>\<open>mat\<close> is
  \<^verbatim>\<open>None\<close>).
\<close>

definition assign_colour :: "matloop \<Rightarrow> string \<Rightarrow> colour \<Rightarrow> py_error + matloop" where
  "assign_colour st line color =
     (case line of
        _ # c1 # _ \<Rightarrow>
          (case channel c1 of
             None \<Rightarrow> Inl KeyError
           | Some k \<Rightarrow>
               (case mat st of
                  None \<Rightarrow> Inl TypeError
                | Some m \<Rightarrow>
                    if k < length m then Inr (st\<lparr>mat := Some (m[k := color])\<rparr>)
                    else Inl IndexError))
      | _ \<Rightarrow> Inl IndexError)"

definition colour_keywords :: "string list" where
  "colour_keywords = [''Ka'', ''Kd'', ''Ks'', ''Ke'']"

text \<open>The body of the loop over the lines of a material library.\<close>

definition parsemat_line ::
  "(string \<Rightarrow> real option) \<Rightarrow> matloop \<Rightarrow> string \<Rightarrow> py_error + matloop" where
  "parsemat_line flt st line =
     (case split (strip line) of
        [] \<Rightarrow> Inr st
      | kw # _ \<Rightarrow>
          if kw = ''newmtl'' then
            (case save_existing st of
               Inl e \<Rightarrow> Inl e
             | Inr ob \<Rightarrow>
                 (case split line of
                    _ # name # _ \<Rightarrow>
                      Inr \<lparr>matname = Some name, mat = Some (replicate 4 default_colour),
                           self = ob\<rparr>
                  | _ \<Rightarrow> Inl IndexError))
          else if kw \<in> set colour_keywords then
            (case floats flt (tl (split line)) of
               Inl e \<Rightarrow> Inl e
             | Inr color \<Rightarrow> assign_colour st line (expand_colour color))
          else Inr st)"

fun parsemat_lines ::
  "(string \<Rightarrow> real option) \<Rightarrow> matloop \<Rightarrow> string list \<Rightarrow> py_error + matloop" where
  "parsemat_lines flt st [] = Inr st"
| "parsemat_lines flt st (line # rest) =
     (case parsemat_line flt st line of
        Inl e \<Rightarrow> Inl e
      | Inr st' \<Rightarrow> parsemat_lines flt st' rest)"

text \<open>The method on the lines of the opened file: the loop, then the final save.\<close>

definition parsemat_text ::
  "(string \<Rightarrow> real option) \<Rightarrow> ObjModel \<Rightarrow> string list \<Rightarrow> py_error + ObjModel" where
  "parsemat_text flt ob lines =
     (case parsemat_lines flt \<lparr>matname = None, mat = None, self = ob\<rparr> lines of
        Inl e \<Rightarrow> Inl e
      | Inr st \<Rightarrow> save_existing st)"

text \<open>
  The file system is a parameter \<open>fs\<close>: the lines of each file that can be opened
  (each line with its terminator, as iterating a file yields them).
\<close>

definition parsemat ::
  "(string \<Rightarrow> real option) \<Rightarrow> (string \<rightharpoonup> string list) \<Rightarrow> ObjModel \<Rightarrow> string
     \<Rightarrow> py_error + ObjModel" where
  "parsemat flt fs ob matfilename =
     (case fs matfilename of
        None \<Rightarrow> Inl IOError
      | Some lines \<Rightarrow> parsemat_text flt ob lines)"


section \<open>\<^verbatim>\<open>ObjModel._parse_model\<close>\<close>

text \<open>\<^verbatim>\<open>for filename in lineparts[1:]: self._parsemat(filename)\<close>.\<close>

fun parsemat_files ::
  "(string \<Rightarrow> real option) \<Rightarrow> (string \<rightharpoonup> string list) \<Rightarrow> ObjModel \<Rightarrow> string list
     \<Rightarrow> py_error + ObjModel" where
  "parsemat_files flt fs ob [] = Inr ob"
| "parsemat_files flt fs ob (filename # rest) =
     (case parsemat flt fs ob filename of
        Inl e \<Rightarrow> Inl e
      | Inr ob' \<Rightarrow> parsemat_files flt fs ob' rest)"

text \<open>
  \<^verbatim>\<open>_, p1, p2, p3 = line.split()\<close> and the array of the three floats: the unpacking
  raises \<^verbatim>\<open>ValueError\<close> unless there are exactly four tokens.
\<close>

definition parse_vec :: "(string \<Rightarrow> real option) \<Rightarrow> string \<Rightarrow> py_error + vec" where
  "parse_vec flt line =
     (case split line of
        [_, p1, p2, p3] \<Rightarrow>
          (case floats flt [p1, p2, p3] of
             Inl e \<Rightarrow> Inl e
           | Inr rs \<Rightarrow> Inr (rs ! 0, rs ! 1, rs ! 2))
      | _ \<Rightarrow> Inl ValueError)"

text \<open>
  Lines 109 to 112, one component of a face: \<^verbatim>\<open>point, texture, normal =
  component.split("/")\<close>, then the two table reads. The texture index is not converted.
\<close>

definition parse_component :: "ObjModel \<Rightarrow> string \<Rightarrow> py_error + point" where
  "parse_component ob component =
     (case split_sep CHR ''/'' component of
        [pnt, texture, normal] \<Rightarrow>
          (case py_int pnt of
             None \<Rightarrow> Inl ValueError
           | Some i \<Rightarrow>
               (case getitem_pos (vertices ob) i of
                  Inl e \<Rightarrow> Inl e
                | Inr vertex \<Rightarrow>
                    (case py_int normal of
                       None \<Rightarrow> Inl ValueError
                     | Some j \<Rightarrow>
                         (case getitem_pos (normals ob) j of
                            Inl e \<Rightarrow> Inl e
                          | Inr normalv \<Rightarrow> Inr (vertex, normalv)))))
      | _ \<Rightarrow> Inl ValueError)"

fun parse_points :: "ObjModel \<Rightarrow> string list \<Rightarrow> py_error + point list" where
  "parse_points ob [] = Inr []"
| "parse_points ob (component # rest) =
     (case parse_component ob component of
        Inl e \<Rightarrow> Inl e
      | Inr p \<Rightarrow>
          (case parse_points ob rest of
             Inl e \<Rightarrow> Inl e
           | Inr ps \<Rightarrow> Inr (p # ps)))"

text \<open>Lines 116 to 121: the index \<open>i\<close> of the bucket.\<close>

definition bucket_index :: "point list \<Rightarrow> nat" where
  "bucket_index points =
     (if length points = 3 then 0
      else if length points = 4 then 1
      else 2)"

definition batch_append :: "batch \<Rightarrow> nat \<Rightarrow> point list \<Rightarrow> batch" where
  "batch_append b i points =
     (case b of (triangles, quads, polygons) \<Rightarrow>
        if i = 0 then (triangles @ [points], quads, polygons)
        else if i = 1 then (triangles, quads @ [points], polygons)
        else (triangles, quads, polygons @ [points]))"

text \<open>
  \<^verbatim>\<open>self.polys[currentmat][i].append(points)\<close> on the \<^verbatim>\<open>defaultdict\<close>: a missing key
  is first given the value \<^verbatim>\<open>([],[],[])\<close>.
\<close>

definition polys_append ::
  "(matobj option \<rightharpoonup> batch) \<Rightarrow> matobj option \<Rightarrow> nat \<Rightarrow> point list
     \<Rightarrow> (matobj option \<rightharpoonup> batch)" where
  "polys_append ps key i points =
     ps(key \<mapsto> batch_append (case ps key of None \<Rightarrow> ([], [], []) | Some b \<Rightarrow> b) i points)"

text \<open>The body of the loop over the lines of a geometry document.\<close>

definition parse_line ::
  "(string \<Rightarrow> real option) \<Rightarrow> (string \<rightharpoonup> string list) \<Rightarrow> ObjModel \<Rightarrow> string
     \<Rightarrow> py_error + ObjModel" where
  "parse_line flt fs ob line =
     (if strip line = [] then Inr ob
      else
        (case split (strip line) of
           [] \<Rightarrow> Inl IndexError
         | kw # args \<Rightarrow>
             if kw = ''v'' then
               (case parse_vec flt line of
                  Inl e \<Rightarrow> Inl e
                | Inr v \<Rightarrow> Inr (ob\<lparr>vertices := vertices ob @ [Some v]\<rparr>))
             else if kw = ''vn'' then
               (case parse_vec flt line of
                  Inl e \<Rightarrow> Inl e
                | Inr v \<Rightarrow> Inr (ob\<lparr>normals := normals ob @ [Some v]\<rparr>))
             else if kw = ''mtllib'' then parsemat_files flt fs ob args
             else if kw = ''usemtl'' then
               (case split line of
                  _ # name # _ \<Rightarrow>
                    (case mats ob name of
                       None \<Rightarrow> Inl KeyError
                     | Some m \<Rightarrow> Inr (ob\<lparr>currentmat := Some m\<rparr>))
                | _ \<Rightarrow> Inl IndexError)
             else if kw = ''f'' then
               (case split_max1 line of
                  _ # face \<Rightarrow>
                    (case face of
                       [] \<Rightarrow> Inl IndexError
                     | components # _ \<Rightarrow>
                         (case parse_points ob (split components) of
                            Inl e \<Rightarrow> Inl e
                          | Inr points \<Rightarrow>
                              Inr (ob\<lparr>polys := polys_append (polys ob) (currentmat ob)
                                      (bucket_index points) points\<rparr>)))
                | [] \<Rightarrow> Inl IndexError)
             else Inr ob))"

fun parse_lines ::
  "(string \<Rightarrow> real option) \<Rightarrow> (string \<rightharpoonup> string list) \<Rightarrow> ObjModel \<Rightarrow> string list
     \<Rightarrow> py_error + ObjModel" where
  "parse_lines flt fs ob [] = Inr ob"
| "parse_lines flt fs ob (line # rest) =
     (case parse_line flt fs ob line of
        Inl e \<Rightarrow> Inl e
      | Inr ob' \<Rightarrow> parse_lines flt fs ob' rest)"

text \<open>\<^verbatim>\<open>_parse_model\<close> on an open file, given as its lines.\<close>

definition parse_model ::
  "(string \<Rightarrow> real option) \<Rightarrow> (string \<rightharpoonup> string list) \<Rightarrow> string list
     \<Rightarrow> py_error + ObjModel" where
  "parse_model flt fs lines = parse_lines flt fs new_model lines"

text \<open>\<^verbatim>\<open>_parse_model\<close> on a file name, which it opens first.\<close>

definition parse_model_file ::
  "(string \<Rightarrow> real option) \<Rightarrow> (string \<rightharpoonup> string list) \<Rightarrow> string
     \<Rightarrow> py_error + ObjModel" where
  "parse_model_file flt fs name =
     (case fs name of
        None \<Rightarrow> Inl IOError
      | Some lines \<Rightarrow> parse_model flt fs lines)"

section \<open>\<^verbatim>\<open>AsteroidModel.__init__\<close>\<close>

text \<open>
  \<^verbatim>\<open>for vertex in self.vertices[1:]: vertex *= random.uniform(0.7,1.3)\<close>. The
  randomness source is the parameter \<open>uniform\<close>: \<open>uniform k\<close> is what call number \<open>k\<close>
  of \<^verbatim>\<open>random.uniform(0.7,1.3)\<close> returns. \<^verbatim>\<open>*=\<close> on an array multiplies its three
  entries in place; on \<^verbatim>\<open>None\<close> it raises \<^verbatim>\<open>TypeError\<close>.
\<close>

definition imul :: "vec \<Rightarrow> real \<Rightarrow> vec" where
  "imul vertex r = (case vertex of (x, y, z) \<Rightarrow> (x * r, y * r, z * r))"

fun scale_all :: "(nat \<Rightarrow> real) \<Rightarrow> nat \<Rightarrow> vec option list \<Rightarrow> py_error + vec option list" where
  "scale_all uniform k [] = Inr []"
| "scale_all uniform k (vertex # rest) =
     (case vertex of
        None \<Rightarrow> Inl TypeError
      | Some a \<Rightarrow>
          (case scale_all uniform (Suc k) rest of
             Inl e \<Rightarrow> Inl e
           | Inr rest' \<Rightarrow> Inr (Some (imul a (uniform k)) # rest')))"

text \<open>
  The loop acts on the arrays the table \<^verbatim>\<open>self.vertices\<close> holds: the record returned is
  the same object after the loop, with the table's new content.
\<close>

definition perturb :: "(nat \<Rightarrow> real) \<Rightarrow> ObjModel \<Rightarrow> py_error + ObjModel" where
  "perturb uniform ob =
     (case scale_all uniform 0 (drop 1 (vertices ob)) of
        Inl e \<Rightarrow> Inl e
      | Inr scaled \<Rightarrow> Inr (ob\<lparr>vertices := take 1 (vertices ob) @ scaled\<rparr>))"

text \<open>The constructor up to the display list: parse \<^verbatim>\<open>asteroid.obj\<close>, then scale.\<close>

definition AsteroidModel_init ::
  "(string \<Rightarrow> real option) \<Rightarrow> (string \<rightharpoonup> string list) \<Rightarrow> (nat \<Rightarrow> real)
     \<Rightarrow> py_error + ObjModel" where
  "AsteroidModel_init flt fs uniform =
     (case parse_model_file flt fs ''asteroid.obj'' of
        Inl e \<Rightarrow> Inl e
      | Inr ob \<Rightarrow> perturb uniform ob)"


section \<open>\<^verbatim>\<open>_Material.activate\<close>, \<^verbatim>\<open>ObjModel.render\<close> and the display list\<close>

text \<open>
  The OpenGL backend is outside the module. What the module does to it is the
  sequence of calls it makes, so rendering returns the calls made, in order, and the
  exception that ended them, if any.
\<close>

datatype gl_face = GL_FRONT | GL_BACK | GL_FRONT_AND_BACK

datatype gl_pname = GL_AMBIENT | GL_DIFFUSE | GL_SPECULAR | GL_EMISSION

datatype gl_mode = GL_TRIANGLES | GL_QUADS | GL_POLYGON

datatype gl_list_mode = GL_COMPILE | GL_COMPILE_AND_EXECUTE

datatype gl_call =
    glGenLists nat
  | glNewList nat gl_list_mode
  | glEndList
  | glMaterialfv gl_face gl_pname colour
  | glBegin gl_mode
  | glEnd
  | glNormal3dv "vec option"
  | glVertex3dv "vec option"

type_synonym emitted = "gl_call list \<times> py_error option"

text \<open>Statement after statement: the second runs when the first has not raised.\<close>

definition and_then :: "emitted \<Rightarrow> emitted \<Rightarrow> emitted" where
  "and_then a b =
     (case a of
        (calls, Some e) \<Rightarrow> (calls, Some e)
      | (calls, None) \<Rightarrow> (case b of (calls', r) \<Rightarrow> (calls @ calls', r)))"

text \<open>A \<^verbatim>\<open>for\<close> loop whose body makes calls and may raise.\<close>

fun for_each :: "('a \<Rightarrow> emitted) \<Rightarrow> 'a list \<Rightarrow> emitted" where
  "for_each body [] = ([], None)"
| "for_each body (x # xs) = and_then (body x) (for_each body xs)"

text \<open>Lines 46 to 50. The two calls for specular and emission are commented out.\<close>

definition activate :: "Material \<Rightarrow> gl_call list" where
  "activate m =
     [glMaterialfv GL_FRONT GL_AMBIENT (ambient m),
      glMaterialfv GL_FRONT GL_DIFFUSE (diffuse m)]"

text \<open>
  Reading the object a point refers to, at the time of the call. Every reference
  \<open>parse_component\<close> makes is a position of its table.
\<close>

definition deref :: "vec option list \<Rightarrow> nat \<Rightarrow> vec option" where
  "deref table r = (if r < length table then table ! r else None)"

definition emit_point :: "ObjModel \<Rightarrow> point \<Rightarrow> gl_call list" where
  "emit_point ob p =
     (case p of (pt, n) \<Rightarrow>
        [glNormal3dv (deref (normals ob) n), glVertex3dv (deref (vertices ob) pt)])"

text \<open>
  The body of the loops over triangles and quads: the target of the \<^verbatim>\<open>for\<close> unpacks
  exactly \<open>k\<close> points, and raises \<^verbatim>\<open>ValueError\<close> on any other number.
\<close>

definition emit_unpacked :: "nat \<Rightarrow> ObjModel \<Rightarrow> point list \<Rightarrow> emitted" where
  "emit_unpacked k ob points =
     (if length points = k then (concat (map (emit_point ob) points), None)
      else ([], Some ValueError))"

definition emit_polygon :: "ObjModel \<Rightarrow> point list \<Rightarrow> emitted" where
  "emit_polygon ob p = ([glBegin GL_POLYGON] @ concat (map (emit_point ob) p) @ [glEnd], None)"

text \<open>The body of the loop of \<^verbatim>\<open>render\<close>, for one item of \<^verbatim>\<open>self.polys\<close>.\<close>

definition render_item :: "ObjModel \<Rightarrow> matobj option \<times> batch \<Rightarrow> emitted" where
  "render_item ob item =
     (case item of (texture, (triangles, quads, polygons)) \<Rightarrow>
        and_then
          (case texture of
             None \<Rightarrow> ([], None)
           | Some (ident, m) \<Rightarrow> (activate m, None))
          (and_then
             (if triangles \<noteq> [] then
                and_then ([glBegin GL_TRIANGLES], None)
                  (and_then (for_each (emit_unpacked 3 ob) triangles) ([glEnd], None))
              else ([], None))
             (and_then
                (if quads \<noteq> [] then
                   and_then ([glBegin GL_QUADS], None)
                     (and_then (for_each (emit_unpacked 4 ob) quads) ([glEnd], None))
                 else ([], None))
                (for_each (emit_polygon ob) polygons))))"

text \<open>
  \<^verbatim>\<open>self.polys.iteritems()\<close>: the items of the dictionary in the order its hash table
  yields the keys. The keys hash by identity, so the module does not fix that order;
  it is the parameter \<open>order\<close>, a list of the keys.
\<close>

definition iteritems :: "('k \<rightharpoonup> 'v) \<Rightarrow> 'k list \<Rightarrow> ('k \<times> 'v) list" where
  "iteritems d order =
     concat (map (\<lambda>k. case d k of None \<Rightarrow> [] | Some v \<Rightarrow> [(k, v)]) order)"

definition render :: "matobj option list \<Rightarrow> ObjModel \<Rightarrow> emitted" where
  "render order ob = for_each (render_item ob) (iteritems (polys ob) order)"

text \<open>
  \<^verbatim>\<open>Model._create_displaylist\<close>; \<open>handle\<close> is what \<^verbatim>\<open>glGenLists(1)\<close> returns.
\<close>

definition create_displaylist :: "nat \<Rightarrow> matobj option list \<Rightarrow> ObjModel \<Rightarrow> emitted" where
  "create_displaylist handle order ob =
     (if handle = 0 then ([glGenLists 1], Some RuntimeError)
      else
        and_then ([glGenLists 1, glNewList handle GL_COMPILE], None)
          (and_then (render order ob) ([glEndList], None)))"


section \<open>Notions used in the statements\<close>

text \<open>
  The two indices a face component \<^verbatim>\<open>point/texture/normal\<close> carries, when it has
  exactly three parts and the first and the third convert with \<^verbatim>\<open>int\<close>.
\<close>

definition component_indices :: "string \<Rightarrow> (int \<times> int) option" where
  "component_indices component =
     (case split_sep CHR ''/'' component of
        [pnt, texture, normal] \<Rightarrow>
          (case py_int pnt of
             None \<Rightarrow> None
           | Some i \<Rightarrow> (case py_int normal of None \<Rightarrow> None | Some j \<Rightarrow> Some (i, j)))
      | _ \<Rightarrow> None)"

text \<open>The number of entries a table holds besides the \<^verbatim>\<open>None\<close> it starts with.\<close>

definition defined_so_far :: "vec option list \<Rightarrow> int" where
  "defined_so_far table = int (length table) - 1"

text \<open>The material calls among the calls made.\<close>

fun is_material_call :: "gl_call \<Rightarrow> bool" where
  "is_material_call (glMaterialfv f p c) = True"
| "is_material_call _ = False"

text \<open>The records of a document with a given keyword, in order.\<close>

definition records :: "string \<Rightarrow> string list \<Rightarrow> string list" where
  "records kw lines = filter (\<lambda>l. take 1 (split l) = [kw]) lines"


text \<open>What reading a material library leaves as it was.\<close>

definition same_geometry :: "ObjModel \<Rightarrow> ObjModel \<Rightarrow> bool" where
  "same_geometry a b =
     (vertices b = vertices a \<and> normals b = normals a \<and> polys b = polys a
        \<and> currentmat b = currentmat a)"


text \<open>While the loop of \<^verbatim>\<open>_parsemat\<close> runs, \<^verbatim>\<open>mat\<close> is \<^verbatim>\<open>None\<close> or a list of four colours.\<close>

definition mat_wellformed :: "matloop \<Rightarrow> bool" where
  "mat_wellformed st = (case mat st of None \<Rightarrow> True | Some m \<Rightarrow> length m = 4)"


text \<open>A table as \<^verbatim>\<open>_parse_model\<close> builds it: \<^verbatim>\<open>None\<close>, then arrays only.\<close>

definition table_wellformed :: "vec option list \<Rightarrow> bool" where
  "table_wellformed t = (take 1 t = [None] \<and> list_all (\<lambda>v. v \<noteq> None) (drop 1 t))"


text \<open>The material calls among the calls made, and what each of them may set.\<close>

definition material_calls :: "emitted \<Rightarrow> gl_call list" where
  "material_calls e = filter is_material_call (fst e)"


definition front_ambient_or_diffuse :: "gl_call \<Rightarrow> bool" where
  "front_ambient_or_diffuse c =
     (case c of
        glMaterialfv f p col \<Rightarrow> f = GL_FRONT \<and> (p = GL_AMBIENT \<or> p = GL_DIFFUSE)
      | _ \<Rightarrow> False)"


text \<open>While the loop of \<^verbatim>\<open>_parsemat\<close> runs, \<^verbatim>\<open>matname\<close> is \<^verbatim>\<open>None\<close> or a non-empty name.\<close>

definition name_wellformed :: "matloop \<Rightarrow> bool" where
  "name_wellformed st = (case matname st of None \<Rightarrow> True | Some n \<Rightarrow> n \<noteq> [])"

text \<open>What \<^verbatim>\<open>random.uniform(0.7,1.3)\<close> can return: a number between its two bounds.\<close>

definition in_uniform_range :: "real \<Rightarrow> bool" where
  "in_uniform_range r = (7 / 10 \<le> r \<and> r \<le> 13 / 10)"

text \<open>A randomness source that returns the same number at every call.\<close>

definition always :: "real \<Rightarrow> nat \<Rightarrow> real" where
  "always r k = r"

section \<open>Concrete inputs\<close>

text \<open>A file system without files, and one holding a material library.\<close>

definition no_files :: "string \<rightharpoonup> string list" where
  "no_files = Map.empty"

text \<open>A document of three vertices and one normal, and the model it parses to.\<close>

definition sample_doc :: "string list" where
  "sample_doc = [''# a triangle\<newline>'', ''v 0 0 0\<newline>'', ''v 1 0 0\<newline>'',
     ''v 0 1 0\<newline>'', ''\<newline>'', ''vn 0 0 1\<newline>'']"

definition sample_model :: ObjModel where
  "sample_model = \<lparr>vertices = [None, Some (0, 0, 0), Some (1, 0, 0), Some (0, 1, 0)],
     normals = [None, Some (0, 0, 1)], mats = Map.empty, polys = Map.empty,
     currentmat = None, created = 0\<rparr>"

text \<open>A material, the model above with that material registered, and its loop state.\<close>

definition red :: Material where
  "red = \<lparr>ambient = [1, 1, 1, 0], diffuse = [1, 0, 0, 0], specular = [0, 0, 0, 0],
     emission = [0, 0, 0, 0]\<rparr>"

definition with_red :: ObjModel where
  "with_red = sample_model\<lparr>mats := [''red'' \<mapsto> (0, red)], created := 1\<rparr>"

definition in_progress :: matloop where
  "in_progress = \<lparr>matname = Some ''red'', mat = Some (replicate 4 default_colour),
     self = new_model\<rparr>"

text \<open>A file system whose \<^verbatim>\<open>asteroid.obj\<close> is the document above.\<close>

definition asteroid_files :: "string \<rightharpoonup> string list" where
  "asteroid_files = [''asteroid.obj'' \<mapsto> sample_doc]"

text \<open>The model with a two-point face under no material and a triangle under \<open>red\<close>.\<close>

definition two_batches :: ObjModel where
  "two_batches = with_red\<lparr>polys :=
     [None \<mapsto> ([], [], [[(1, 1), (2, 1)]]),
      Some (0, red) \<mapsto> ([[(1, 1), (2, 1), (3, 1)]], [], [])]\<rparr>"

section \<open>Facts about the string functions\<close>

lemma split_space_Cons: "isspace c \<Longrightarrow> split (c # cs) = split cs"
  by simp

lemma split_dropWhile: "split (dropWhile isspace s) = split s"
  by (induction s) auto

lemma split_Nil_iff: "split s = [] \<longleftrightarrow> (\<forall>c\<in>set s. isspace c)"
  by (induction s) auto

lemma dropWhile_Nil_iff: "dropWhile isspace s = [] \<longleftrightarrow> (\<forall>c\<in>set s. isspace c)"
  by (induction s) auto

lemma all_space_dropWhile:
  "(\<forall>c\<in>set (dropWhile isspace s). isspace c) \<longleftrightarrow> (\<forall>c\<in>set s. isspace c)"
proof (cases "dropWhile isspace s = []")
  case True
  then show ?thesis by (metis dropWhile_Nil_iff empty_iff list.set(1))
next
  case False
  then have "\<not> isspace (hd (dropWhile isspace s))" by (rule hd_dropWhile)
  moreover have "hd (dropWhile isspace s) \<in> set (dropWhile isspace s)" using False by simp
  ultimately have "\<not> (\<forall>c\<in>set (dropWhile isspace s). isspace c)" by blast
  moreover have "\<not> (\<forall>c\<in>set s. isspace c)" using False by (simp add: dropWhile_Nil_iff)
  ultimately show ?thesis by blast
qed

lemma strip_Nil_iff: "strip s = [] \<longleftrightarrow> split s = []"
  by (simp add: strip_def dropWhile_Nil_iff all_space_dropWhile split_Nil_iff)

lemma split_snoc_space: "isspace c \<Longrightarrow> split (s @ [c]) = split s"
proof (induction s rule: split.induct)
  case 1
  then show ?case by simp
next
  case (2 d ds)
  show ?case
  proof (cases "isspace d")
    case True
    with 2 show ?thesis by simp
  next
    case False
    show ?thesis
    proof (cases "\<forall>x\<in>set ds. nonspace x")
      case True
      then have tk: "takeWhile nonspace (ds @ [c]) = ds" "dropWhile nonspace (ds @ [c]) = [c]"
        "takeWhile nonspace ds = ds" "dropWhile nonspace ds = []"
        using \<open>isspace c\<close> by (simp_all add: nonspace_def)
      have "split ((d # ds) @ [c]) =
          (d # takeWhile nonspace (ds @ [c])) # split (dropWhile nonspace (ds @ [c]))"
        using False by simp
      also have "\<dots> = (d # ds) # split [c]" by (simp only: tk)
      also have "\<dots> = (d # takeWhile nonspace ds) # split (dropWhile nonspace ds)"
        using \<open>isspace c\<close> by (simp only: tk split.simps if_True)
      also have "\<dots> = split (d # ds)" using False by simp
      finally show ?thesis .
    next
      case nall: False
      then have "takeWhile nonspace (ds @ [c]) = takeWhile nonspace ds"
        "dropWhile nonspace (ds @ [c]) = dropWhile nonspace ds @ [c]"
        by (auto simp: takeWhile_append dropWhile_append)
      with False 2 show ?thesis by simp
    qed
  qed
qed

lemma split_rev_dropWhile: "split (rev (dropWhile isspace r)) = split (rev r)"
  by (induction r) (auto simp: split_snoc_space)

lemma split_strip: "split (strip s) = split s"
  by (simp add: strip_def split_rev_dropWhile split_dropWhile)

lemma split_nonspace_Cons:
  "\<not> isspace c \<Longrightarrow> split (c # cs) = (c # takeWhile nonspace cs) # split (dropWhile nonspace cs)"
  by simp

lemma split_max1_one: "split s = [t] \<Longrightarrow> split_max1 s = [t]"
proof -
  assume a: "split s = [t]"
  then have "split (dropWhile isspace s) = [t]" by (simp add: split_dropWhile)
  moreover have "dropWhile isspace s \<noteq> []" using a by (auto simp: dropWhile_Nil_iff split_Nil_iff[symmetric])
  ultimately obtain c cs where s1: "dropWhile isspace s = c # cs" and "\<not> isspace c"
    by (metis hd_dropWhile list.exhaust_sel)
  with \<open>split (dropWhile isspace s) = [t]\<close> have t: "t = c # takeWhile nonspace cs"
     and r: "split (dropWhile nonspace cs) = []" by auto
  from r have "dropWhile isspace (dropWhile nonspace cs) = []"
    by (simp add: dropWhile_Nil_iff split_Nil_iff)
  with s1 t \<open>\<not> isspace c\<close> show ?thesis by (simp add: split_max1_def nonspace_def)
qed

lemma split_max1_more:
  assumes "split s = t # u # us"
  shows "\<exists>rest. split_max1 s = [t, rest] \<and> split rest = u # us"
proof -
  from assms have "split (dropWhile isspace s) = t # u # us" by (simp add: split_dropWhile)
  moreover have "dropWhile isspace s \<noteq> []" using assms by (auto simp: dropWhile_Nil_iff split_Nil_iff[symmetric])
  ultimately obtain c cs where s1: "dropWhile isspace s = c # cs" and "\<not> isspace c"
    by (metis hd_dropWhile list.exhaust_sel)
  with \<open>split (dropWhile isspace s) = t # u # us\<close> have t: "t = c # takeWhile nonspace cs"
     and r: "split (dropWhile nonspace cs) = u # us" by auto
  let ?rest = "dropWhile isspace (dropWhile nonspace cs)"
  from r have "split ?rest = u # us" by (simp add: split_dropWhile)
  moreover from this have "?rest \<noteq> []" by (metis split.simps(1) list.distinct(1))
  ultimately show ?thesis using s1 t \<open>\<not> isspace c\<close>
    by (auto simp: split_max1_def nonspace_def Let_def)
qed

subsection \<open>What a material library leaves alone\<close>

lemma same_geometry_refl: "same_geometry a a"
  by (simp add: same_geometry_def)

lemma same_geometry_trans: "same_geometry a b \<Longrightarrow> same_geometry b c \<Longrightarrow> same_geometry a c"
  by (simp add: same_geometry_def)

lemma save_mat_geometry: "save_mat name m ob = Inr ob' \<Longrightarrow> same_geometry ob ob'"
  by (auto simp: save_mat_def same_geometry_def split: option.splits sum.splits)

lemma save_existing_geometry: "save_existing st = Inr ob' \<Longrightarrow> same_geometry (self st) ob'"
  by (auto simp: save_existing_def same_geometry_refl split: option.splits if_splits
      dest: save_mat_geometry)

lemma assign_colour_self: "assign_colour st line color = Inr st' \<Longrightarrow> self st' = self st"
  by (auto simp: assign_colour_def split: list.splits option.splits if_splits)

lemma parsemat_line_geometry:
  "parsemat_line flt st line = Inr st' \<Longrightarrow> same_geometry (self st) (self st')"
  by (auto simp: parsemat_line_def same_geometry_refl
      split: list.splits if_splits sum.splits
      dest!: save_existing_geometry assign_colour_self)

lemma parsemat_lines_geometry:
  "parsemat_lines flt st lines = Inr st' \<Longrightarrow> same_geometry (self st) (self st')"
proof (induction lines arbitrary: st)
  case Nil
  then show ?case by (simp add: same_geometry_refl)
next
  case (Cons l ls)
  then show ?case
    by (auto split: sum.splits dest!: parsemat_line_geometry intro: same_geometry_trans)
qed

lemma parsemat_text_geometry: "parsemat_text flt ob lines = Inr ob' \<Longrightarrow> same_geometry ob ob'"
  by (auto simp: parsemat_text_def split: sum.splits
      dest!: parsemat_lines_geometry save_existing_geometry intro: same_geometry_trans)

lemma parsemat_geometry: "parsemat flt fs ob name = Inr ob' \<Longrightarrow> same_geometry ob ob'"
  by (auto simp: parsemat_def split: option.splits dest: parsemat_text_geometry)

lemma parsemat_files_geometry:
  "parsemat_files flt fs ob names = Inr ob' \<Longrightarrow> same_geometry ob ob'"
proof (induction names arbitrary: ob)
  case Nil
  then show ?case by (simp add: same_geometry_refl)
next
  case (Cons n ns)
  then show ?case
    by (auto split: sum.splits dest!: parsemat_geometry intro: same_geometry_trans)
qed

subsection \<open>The branches of \<open>parse_line\<close>\<close>

lemma parse_line_keyword:
  assumes "split line = kw # args"
  shows "strip line \<noteq> []" and "split (strip line) = kw # args"
  using assms by (simp_all add: strip_Nil_iff split_strip)

lemma parse_line_usemtl:
  assumes "split line = ''usemtl'' # name # rest"
  shows "parse_line flt fs ob line =
           (case mats ob name of
              None \<Rightarrow> Inl KeyError
            | Some m \<Rightarrow> Inr (ob\<lparr>currentmat := Some m\<rparr>))"
  using assms parse_line_keyword[OF assms] by (simp add: parse_line_def)

lemma parse_line_face:
  assumes "split line = ''f'' # comps"
  shows "parse_line flt fs ob line =
           (if comps = [] then Inl IndexError
            else case parse_points ob comps of
                   Inl e \<Rightarrow> Inl e
                 | Inr points \<Rightarrow>
                     Inr (ob\<lparr>polys := polys_append (polys ob) (currentmat ob)
                             (bucket_index points) points\<rparr>))"
proof (cases comps)
  case Nil
  with assms have "split_max1 line = [''f'']" by (simp add: split_max1_one)
  with Nil assms parse_line_keyword[OF assms] show ?thesis by (simp add: parse_line_def)
next
  case (Cons c cs)
  with assms obtain r where "split_max1 line = [''f'', r]" "split r = comps"
    using split_max1_more[of line "''f''" c cs] by auto
  with Cons assms parse_line_keyword[OF assms] show ?thesis by (simp add: parse_line_def)
qed

lemma parse_line_currentmat:
  assumes "parse_line flt fs ob line = Inr ob'" and "take 1 (split line) \<noteq> [''usemtl'']"
  shows "currentmat ob' = currentmat ob"
proof (cases "split line")
  case Nil
  then have "strip line = []" by (simp add: strip_Nil_iff)
  with assms show ?thesis by (simp add: parse_line_def)
next
  case (Cons kw args)
  note kw = parse_line_keyword[OF Cons]
  from assms(2) Cons have "kw \<noteq> ''usemtl''" by simp
  with assms(1) kw show ?thesis
    by (auto simp: parse_line_def same_geometry_def
        split: if_splits sum.splits list.splits dest!: parsemat_files_geometry)
qed

lemma parse_lines_append:
  "parse_lines flt fs ob (xs @ ys) =
     (case parse_lines flt fs ob xs of Inl e \<Rightarrow> Inl e | Inr ob1 \<Rightarrow> parse_lines flt fs ob1 ys)"
  by (induction xs arbitrary: ob) (auto split: sum.splits)

lemma parse_lines_currentmat:
  assumes "parse_lines flt fs ob lines = Inr ob'"
      and "\<forall>l\<in>set lines. take 1 (split l) \<noteq> [''usemtl'']"
  shows "currentmat ob' = currentmat ob"
  using assms
proof (induction lines arbitrary: ob)
  case Nil
  then show ?case by simp
next
  case (Cons l ls)
  then show ?case by (auto split: sum.splits dest: parse_line_currentmat)
qed

lemma getitem_pos_cases:
  "getitem_pos xs i = Inl IndexError \<or> (\<exists>p. getitem_pos xs i = Inr p \<and> p < length xs)"
  by (auto simp: getitem_pos_def Let_def)

lemma getitem_pos_in_range:
  "1 \<le> i \<Longrightarrow> i \<le> defined_so_far xs \<Longrightarrow> getitem_pos xs i = Inr (nat i)"
  by (auto simp: getitem_pos_def defined_so_far_def Let_def)

lemma getitem_pos_too_large:
  "defined_so_far xs < i \<Longrightarrow> getitem_pos xs i = Inl IndexError"
  by (auto simp: getitem_pos_def defined_so_far_def Let_def)

lemma getitem_pos_zero: "xs \<noteq> [] \<Longrightarrow> getitem_pos xs 0 = Inr 0"
  by (auto simp: getitem_pos_def Let_def)

lemma parse_component_indices:
  assumes "component_indices c = Some (i, j)"
  shows "parse_component ob c =
           (case getitem_pos (vertices ob) i of
              Inl e \<Rightarrow> Inl e
            | Inr vertex \<Rightarrow>
                (case getitem_pos (normals ob) j of
                   Inl e \<Rightarrow> Inl e
                 | Inr normalv \<Rightarrow> Inr (vertex, normalv)))"
  using assms
  by (auto simp: component_indices_def parse_component_def
      split: list.splits option.splits sum.splits)

lemma parse_component_wellformed:
  assumes "component_indices c = Some (i, j)"
  shows "parse_component ob c = Inl IndexError \<or> (\<exists>p. parse_component ob c = Inr p)"
  using getitem_pos_cases[of "vertices ob" i] getitem_pos_cases[of "normals ob" j]
  by (auto simp: parse_component_indices[OF assms])

lemma parse_component_in_range:
  assumes "component_indices c = Some (i, j)"
      and "1 \<le> i" "i \<le> defined_so_far (vertices ob)"
      and "1 \<le> j" "j \<le> defined_so_far (normals ob)"
  shows "parse_component ob c = Inr (nat i, nat j)"
  using assms(2-) by (simp add: parse_component_indices[OF assms(1)] getitem_pos_in_range)

lemma parse_component_too_large:
  assumes "component_indices c = Some (i, j)"
      and "defined_so_far (vertices ob) < i \<or> defined_so_far (normals ob) < j"
  shows "parse_component ob c = Inl IndexError"
  using assms(2) getitem_pos_cases[of "vertices ob" i]
  by (auto simp: parse_component_indices[OF assms(1)] getitem_pos_too_large)

lemma parse_points_wellformed:
  assumes "map component_indices comps = map Some ijs"
  shows "parse_points ob comps = Inl IndexError \<or> (\<exists>ps. parse_points ob comps = Inr ps)"
  using assms
proof (induction comps arbitrary: ijs)
  case Nil
  then show ?case by simp
next
  case (Cons c cs)
  then obtain i j rest where ijs: "ijs = (i, j) # rest"
    and c: "component_indices c = Some (i, j)"
    and cs: "map component_indices cs = map Some rest"
    by (cases ijs) auto
  from Cons.IH[OF cs] parse_component_wellformed[OF c, of ob] show ?case
    by (auto split: sum.splits)
qed

lemma parse_points_in_range:
  assumes "map component_indices comps = map Some ijs"
      and "\<forall>(i, j)\<in>set ijs. 1 \<le> i \<and> i \<le> defined_so_far (vertices ob)
              \<and> 1 \<le> j \<and> j \<le> defined_so_far (normals ob)"
  shows "parse_points ob comps = Inr (map (\<lambda>(i, j). (nat i, nat j)) ijs)"
  using assms
proof (induction comps arbitrary: ijs)
  case Nil
  then show ?case by simp
next
  case (Cons c cs)
  then obtain i j rest where ijs: "ijs = (i, j) # rest"
    and c: "component_indices c = Some (i, j)"
    and cs: "map component_indices cs = map Some rest"
    by (cases ijs) auto
  from Cons.prems(2) ijs have "parse_component ob c = Inr (nat i, nat j)"
    by (intro parse_component_in_range[OF c]) auto
  moreover from Cons.IH[OF cs] Cons.prems(2) ijs
  have "parse_points ob cs = Inr (map (\<lambda>(i, j). (nat i, nat j)) rest)" by simp
  ultimately show ?case using ijs by simp
qed

lemma parse_points_too_large:
  assumes "map component_indices comps = map Some ijs"
      and "\<exists>(i, j)\<in>set ijs. defined_so_far (vertices ob) < i \<or> defined_so_far (normals ob) < j"
  shows "parse_points ob comps = Inl IndexError"
  using assms
proof (induction comps arbitrary: ijs)
  case Nil
  then show ?case by simp
next
  case (Cons c cs)
  then obtain i j rest where ijs: "ijs = (i, j) # rest"
    and c: "component_indices c = Some (i, j)"
    and cs: "map component_indices cs = map Some rest"
    by (cases ijs) auto
  show ?case
  proof (cases "defined_so_far (vertices ob) < i \<or> defined_so_far (normals ob) < j")
    case True
    then show ?thesis using parse_component_too_large[OF c] by simp
  next
    case False
    with Cons.prems(2) ijs
    have "\<exists>(i, j)\<in>set rest. defined_so_far (vertices ob) < i \<or> defined_so_far (normals ob) < j"
      by auto
    from Cons.IH[OF cs this] parse_component_wellformed[OF c, of ob] show ?thesis
      by (auto split: sum.splits)
  qed
qed

lemma parse_points_length: "parse_points ob comps = Inr points \<Longrightarrow> length points = length comps"
  by (induction comps arbitrary: points) (auto split: sum.splits)

subsection \<open>The tables grow by one entry per record\<close>

lemma parse_vec_keyword_v:
  assumes "split line = kw # args"
  shows "parse_line flt fs ob line =
     (if kw = ''v'' then
               (case parse_vec flt line of
                  Inl e \<Rightarrow> Inl e
                | Inr v \<Rightarrow> Inr (ob\<lparr>vertices := vertices ob @ [Some v]\<rparr>))
      else if kw = ''vn'' then
               (case parse_vec flt line of
                  Inl e \<Rightarrow> Inl e
                | Inr v \<Rightarrow> Inr (ob\<lparr>normals := normals ob @ [Some v]\<rparr>))
      else parse_line flt fs ob line)"
  using parse_line_keyword[OF assms] by (simp add: parse_line_def)

lemma parse_line_table_lengths:
  assumes "parse_line flt fs ob line = Inr ob'"
  shows "length (vertices ob') = length (vertices ob) + length (records ''v'' [line])
       \<and> length (normals ob') = length (normals ob) + length (records ''vn'' [line])"
proof (cases "split line")
  case Nil
  then have "strip line = []" by (simp add: strip_Nil_iff)
  with assms Nil show ?thesis by (simp add: parse_line_def records_def)
next
  case (Cons kw args)
  note kw = parse_line_keyword[OF Cons]
  from assms kw Cons show ?thesis
    by (auto simp: parse_line_def same_geometry_def records_def
        split: if_splits sum.splits list.splits option.splits dest!: parsemat_files_geometry)
qed

lemma records_Cons: "records kw (l # ls) = records kw [l] @ records kw ls"
  by (simp add: records_def)

lemma parse_lines_table_lengths:
  assumes "parse_lines flt fs ob lines = Inr ob'"
  shows "length (vertices ob') = length (vertices ob) + length (records ''v'' lines)
       \<and> length (normals ob') = length (normals ob) + length (records ''vn'' lines)"
  using assms
proof (induction lines arbitrary: ob)
  case Nil
  then show ?case by (simp add: records_def)
next
  case (Cons l ls)
  then obtain ob1 where l: "parse_line flt fs ob l = Inr ob1"
    and ls: "parse_lines flt fs ob1 ls = Inr ob'"
    by (auto split: sum.splits)
  from parse_line_table_lengths[OF l] Cons.IH[OF ls] show ?case
    by (simp add: records_Cons[of _ l ls])
qed

lemma parse_model_defined_so_far:
  assumes "parse_model flt fs doc = Inr ob"
  shows "defined_so_far (vertices ob) = int (length (records ''v'' doc))"
    and "defined_so_far (normals ob) = int (length (records ''vn'' doc))"
  using parse_lines_table_lengths[of flt fs new_model doc ob] assms
  by (simp_all add: parse_model_def defined_so_far_def new_model_def)

subsection \<open>Material libraries\<close>

lemma floats_error: "floats flt xs = Inl e \<Longrightarrow> e = ValueError"
  by (induction xs arbitrary: e) (auto split: option.splits sum.splits)

lemma floats_length: "floats flt xs = Inr rs \<Longrightarrow> length rs = length xs"
  by (induction xs arbitrary: rs) (auto split: option.splits sum.splits)

lemma in_colour_keywords:
  "kw \<in> set colour_keywords \<longleftrightarrow> kw = ''Ka'' \<or> kw = ''Kd'' \<or> kw = ''Ks'' \<or> kw = ''Ke''"
  by (auto simp: colour_keywords_def)

lemma parsemat_line_colour:
  assumes "split line = kw # toks" and "kw \<in> set colour_keywords"
  shows "parsemat_line flt st line =
           (case floats flt toks of
              Inl e \<Rightarrow> Inl e
            | Inr color \<Rightarrow> assign_colour st line (expand_colour color))"
proof -
  from assms(2) have "kw \<noteq> ''newmtl''" by (auto simp: in_colour_keywords)
  with assms show ?thesis by (simp add: parsemat_line_def split_strip)
qed

lemma parsemat_line_other:
  assumes "take 1 (split line) \<noteq> [''newmtl'']"
      and "\<forall>kw. take 1 (split line) = [kw] \<longrightarrow> \<not> kw \<in> set colour_keywords"
  shows "parsemat_line flt st line = Inr st"
  using assms by (cases "split line") (auto simp: parsemat_line_def split_strip)

lemma colour_line_shape:
  assumes "split line = kw # toks" and "kw \<in> set colour_keywords"
  shows "\<exists>c0 c1 r. line = c0 # c1 # r
           \<and> (if isspace c0 then channel c1 = None
               else kw = [CHR ''K'', c1] \<and> c0 = CHR ''K''
                  \<and> channel c1 = Some (if kw = ''Ka'' then 0 else if kw = ''Kd'' then 1
                                        else if kw = ''Ks'' then 2 else 3))"
proof (cases line)
  case Nil
  with assms show ?thesis by simp
next
  case (Cons c0 r0)
  show ?thesis
  proof (cases "isspace c0")
    case True
    with Cons assms have r0: "split r0 = kw # toks" by simp
    then obtain c1 r where r0': "r0 = c1 # r" by (cases r0) auto
    show ?thesis
    proof (cases "isspace c1")
      case True
      then have "channel c1 = None" by (auto simp: isspace_def channel_def)
      with Cons r0' \<open>isspace c0\<close> show ?thesis by simp
    next
      case False
      with r0 r0' have "kw = c1 # takeWhile nonspace r" by simp
      with assms(2) have "c1 = CHR ''K''" by (auto simp: in_colour_keywords)
      then have "channel c1 = None" by (simp add: channel_def)
      with Cons r0' \<open>isspace c0\<close> show ?thesis by simp
    qed
  next
    case False
    with Cons assms(1) have kw: "kw = c0 # takeWhile nonspace r0" by simp
    with assms(2) obtain c1 where tw: "takeWhile nonspace r0 = [c1]" and c0: "c0 = CHR ''K''"
      and c1: "c1 = CHR ''a'' \<or> c1 = CHR ''d'' \<or> c1 = CHR ''s'' \<or> c1 = CHR ''e''"
      by (auto simp: in_colour_keywords)
    from tw obtain r where r0: "r0 = c1 # r" by (cases r0) (auto split: if_splits)
    from c1 kw tw c0 have "channel c1 = Some (if kw = ''Ka'' then 0 else if kw = ''Kd'' then 1
                                        else if kw = ''Ks'' then 2 else 3)"
      by (auto simp: channel_def)
    with Cons r0 False kw tw c0 show ?thesis by simp
  qed
qed

lemma parsemat_lines_append:
  "parsemat_lines flt st (xs @ ys) =
     (case parsemat_lines flt st xs of Inl e \<Rightarrow> Inl e | Inr st1 \<Rightarrow> parsemat_lines flt st1 ys)"
  by (induction xs arbitrary: st) (auto split: sum.splits)

lemma parsemat_line_wellformed:
  "parsemat_line flt st line = Inr st' \<Longrightarrow> mat_wellformed st \<Longrightarrow> mat_wellformed st'"
  by (auto simp: parsemat_line_def assign_colour_def mat_wellformed_def
      split: list.splits if_splits sum.splits option.splits)

lemma parsemat_lines_wellformed:
  "parsemat_lines flt st lines = Inr st' \<Longrightarrow> mat_wellformed st \<Longrightarrow> mat_wellformed st'"
proof (induction lines arbitrary: st)
  case Nil
  then show ?case by simp
next
  case (Cons l ls)
  then show ?case by (auto split: sum.splits dest: parsemat_line_wellformed)
qed

lemma colour_without_material:
  assumes "mat st = None" and "split line = kw # toks" and "kw \<in> set colour_keywords"
  shows "parsemat_line flt st line \<in> {Inl ValueError, Inl KeyError, Inl TypeError}"
proof -
  from colour_line_shape[OF assms(2,3)] obtain c0 c1 r where line: "line = c0 # c1 # r"
    by blast
  show ?thesis
  proof (cases "floats flt toks")
    case (Inl e)
    then show ?thesis using floats_error[OF Inl] by (simp add: parsemat_line_colour[OF assms(2,3)])
  next
    case (Inr color)
    then show ?thesis
      unfolding parsemat_line_colour[OF assms(2,3)]
      using assms(1) by (simp add: assign_colour_def line split: option.splits)
  qed
qed

lemma line_without_material:
  assumes "mat st = None" and "take 1 (split line) \<noteq> [''newmtl'']"
  shows "parsemat_line flt st line = Inr st
       \<or> parsemat_line flt st line \<in> {Inl ValueError, Inl KeyError, Inl TypeError}"
proof (cases "split line")
  case Nil
  then show ?thesis by (simp add: parsemat_line_def split_strip)
next
  case (Cons kw toks)
  show ?thesis
  proof (cases "kw \<in> set colour_keywords")
    case True
    then show ?thesis using colour_without_material[OF assms(1) Cons True] by simp
  next
    case False
    with Cons assms(2) show ?thesis by (simp add: parsemat_line_def split_strip)
  qed
qed

lemma lines_without_material:
  assumes "mat st = None" and "\<forall>l\<in>set pre. take 1 (split l) \<noteq> [''newmtl'']"
  shows "parsemat_lines flt st pre = Inr st
       \<or> parsemat_lines flt st pre \<in> {Inl ValueError, Inl KeyError, Inl TypeError}"
  using assms(2)
proof (induction pre)
  case Nil
  then show ?case by simp
next
  case (Cons l ls)
  then have "take 1 (split l) \<noteq> [''newmtl'']" by simp
  from line_without_material[OF assms(1) this, of flt] Cons show ?case by auto
qed

lemma lines_without_records:
  assumes "\<forall>l\<in>set pre. take 1 (split l) \<noteq> [''newmtl'']"
      and "\<forall>l\<in>set pre. \<forall>k. take 1 (split l) = [k] \<longrightarrow> k \<notin> set colour_keywords"
  shows "parsemat_lines flt st pre = Inr st"
  using assms by (induction pre) (auto simp: parsemat_line_other)

subsection \<open>Colour expansion and the check of the lengths\<close>

lemma Material_call_four:
  assumes "length m = 4"
  shows "Material_call m =
           (if \<forall>c\<in>set m. length c = 4
            then Inr \<lparr>ambient = m ! 0, diffuse = m ! 1, specular = m ! 2, emission = m ! 3\<rparr>
            else Inl AssertionError)"
proof -
  from assms obtain a d s e where m: "m = [a, d, s, e]"
    by (auto simp: length_Suc_conv numeral_eq_Suc)
  show ?thesis by (simp add: m Material_call_def Material_init_def)
qed

lemma split_token_nonempty: "t \<in> set (split s) \<Longrightarrow> t \<noteq> []"
  by (induction s rule: split.induct) (auto split: if_splits)

lemma parsemat_line_newmtl:
  assumes "split nl = ''newmtl'' # name2 # others"
  shows "parsemat_line flt st nl =
           (case save_existing st of
              Inl e \<Rightarrow> Inl e
            | Inr ob \<Rightarrow>
                Inr \<lparr>matname = Some name2, mat = Some (replicate 4 default_colour), self = ob\<rparr>)"
  using assms by (simp add: parsemat_line_def split_strip split: sum.splits)

lemma parsemat_line_name_wellformed:
  assumes "parsemat_line flt st line = Inr st'" and "name_wellformed st"
  shows "name_wellformed st'"
proof (cases "split line")
  case Nil
  with assms show ?thesis by (simp add: parsemat_line_def split_strip)
next
  case (Cons kw toks)
  show ?thesis
  proof (cases "kw = ''newmtl''")
    case True
    from assms(1) Cons True obtain name2 others where toks: "toks = name2 # others"
      by (cases toks) (auto simp: parsemat_line_def split_strip split: sum.splits)
    have "name2 \<in> set (split line)" by (simp add: Cons toks)
    then have "name2 \<noteq> []" by (rule split_token_nonempty)
    with assms(1) Cons True toks show ?thesis
      by (auto simp: parsemat_line_newmtl name_wellformed_def split: sum.splits)
  next
    case False
    with assms Cons show ?thesis
      by (auto simp: parsemat_line_def split_strip assign_colour_def name_wellformed_def
          split: if_splits sum.splits list.splits option.splits)
  qed
qed

lemma parsemat_lines_name_wellformed:
  "parsemat_lines flt st lines = Inr st' \<Longrightarrow> name_wellformed st \<Longrightarrow> name_wellformed st'"
proof (induction lines arbitrary: st)
  case Nil
  then show ?case by simp
next
  case (Cons l ls)
  then show ?case by (auto split: sum.splits dest: parsemat_line_name_wellformed)
qed

lemma parsemat_line_same_material:
  assumes "parsemat_line flt st line = Inr st'" and "take 1 (split line) \<noteq> [''newmtl'']"
  shows "matname st' = matname st \<and> self st' = self st \<and> (mat st' = None \<longleftrightarrow> mat st = None)"
  using assms
  by (cases "split line")
    (auto simp: parsemat_line_def split_strip assign_colour_def
      split: if_splits sum.splits list.splits option.splits)

lemma parsemat_lines_same_material:
  assumes "parsemat_lines flt st lines = Inr st'"
      and "\<forall>l\<in>set lines. take 1 (split l) \<noteq> [''newmtl'']"
  shows "matname st' = matname st \<and> self st' = self st \<and> (mat st' = None \<longleftrightarrow> mat st = None)"
  using assms
proof (induction lines arbitrary: st)
  case Nil
  then show ?case by simp
next
  case (Cons l ls)
  then obtain st1 where l: "parsemat_line flt st l = Inr st1"
    and ls: "parsemat_lines flt st1 ls = Inr st'"
    by (auto split: sum.splits)
  from Cons.prems(2) have "take 1 (split l) \<noteq> [''newmtl'']"
    and "\<forall>l\<in>set ls. take 1 (split l) \<noteq> [''newmtl'']" by simp_all
  from parsemat_line_same_material[OF l this(1)] Cons.IH[OF ls this(2)]
  show ?case by simp
qed

lemma save_existing_in_progress:
  assumes "matname st = Some name" "name \<noteq> []" "mat st = Some m" "length m = 4"
  shows "save_existing st =
           (if \<forall>c\<in>set m. length c = 4
            then Inr ((self st)\<lparr>mats := (mats (self st))(name \<mapsto> (created (self st),
                         \<lparr>ambient = m ! 0, diffuse = m ! 1, specular = m ! 2,
                           emission = m ! 3\<rparr>)),
                       created := Suc (created (self st))\<rparr>)
            else Inl AssertionError)"
  using assms by (simp add: save_existing_def save_mat_def Material_call_four)

subsection \<open>The perturbation\<close>

lemma table_wellformed_new: "table_wellformed [None]"
  by (simp add: table_wellformed_def)

lemma table_wellformed_append: "table_wellformed t \<Longrightarrow> table_wellformed (t @ [Some v])"
  by (cases t; cases v) (auto simp: table_wellformed_def)

lemma parse_line_vertices_wellformed:
  assumes "parse_line flt fs ob line = Inr ob'" and "table_wellformed (vertices ob)"
  shows "table_wellformed (vertices ob')"
proof (cases "split line")
  case Nil
  then have "strip line = []" by (simp add: strip_Nil_iff)
  with assms show ?thesis by (simp add: parse_line_def)
next
  case (Cons kw args)
  note kw = parse_line_keyword[OF Cons]
  from assms kw show ?thesis
    by (auto simp: parse_line_def same_geometry_def table_wellformed_append
        split: if_splits sum.splits list.splits option.splits dest!: parsemat_files_geometry)
qed

lemma parse_lines_vertices_wellformed:
  assumes "parse_lines flt fs ob lines = Inr ob'" and "table_wellformed (vertices ob)"
  shows "table_wellformed (vertices ob')"
  using assms
proof (induction lines arbitrary: ob)
  case Nil
  then show ?case by simp
next
  case (Cons l ls)
  then show ?case by (auto split: sum.splits dest: parse_line_vertices_wellformed)
qed

lemma parse_model_vertices_wellformed:
  "parse_model flt fs lines = Inr ob \<Longrightarrow> table_wellformed (vertices ob)"
  unfolding parse_model_def
  by (erule parse_lines_vertices_wellformed) (simp add: new_model_def table_wellformed_new)

lemma scale_all_defined:
  "list_all (\<lambda>v. v \<noteq> None) vs \<Longrightarrow>
   scale_all uniform k vs =
     Inr (map (\<lambda>(i, v). map_option (\<lambda>a. imul a (uniform i)) v) (enumerate k vs))"
  by (induction vs arbitrary: k) auto

lemma imul_one: "imul a 1 = a"
  by (cases a) (simp add: imul_def)

lemma scale_all_always_one:
  "list_all (\<lambda>v. v \<noteq> None) vs \<Longrightarrow> scale_all (always 1) k vs = Inr vs"
  by (induction vs arbitrary: k) (auto simp: imul_one always_def)

lemma perturb_wellformed:
  assumes "table_wellformed (vertices ob)"
  shows "perturb uniform ob =
           Inr (ob\<lparr>vertices := None # map (\<lambda>(i, v). map_option (\<lambda>a. imul a (uniform i)) v)
                                           (enumerate 0 (tl (vertices ob)))\<rparr>)"
  using assms
  by (cases "vertices ob") (auto simp: perturb_def table_wellformed_def scale_all_defined)

subsection \<open>The calls of a rendering\<close>

lemma material_calls_and_then:
  "material_calls (and_then a b) =
     material_calls a @ (if snd a = None then material_calls b else [])"
  by (cases a; cases b) (auto simp: and_then_def material_calls_def split: option.splits)

lemma material_calls_plain: "material_calls (calls, r) = filter is_material_call calls"
  by (simp add: material_calls_def)

lemma emit_point_no_material: "filter is_material_call (emit_point ob p) = []"
  by (cases p) (simp add: emit_point_def)

lemma emit_points_no_material:
  "filter is_material_call (concat (map (emit_point ob) ps)) = []"
  by (induction ps) (simp_all add: emit_point_no_material)

lemma emit_unpacked_no_material: "material_calls (emit_unpacked k ob ps) = []"
  by (simp add: emit_unpacked_def material_calls_def emit_points_no_material)

lemma emit_polygon_no_material: "material_calls (emit_polygon ob p) = []"
  by (simp add: emit_polygon_def material_calls_def emit_points_no_material)

lemma for_each_no_material:
  "(\<And>x. material_calls (body x) = []) \<Longrightarrow> material_calls (for_each body xs) = []"
  by (induction xs) (simp_all add: material_calls_and_then material_calls_plain)

lemma render_item_material_calls:
  "material_calls (render_item ob (texture, b)) =
     (case texture of None \<Rightarrow> [] | Some (ident, m) \<Rightarrow> activate m)"
  by (cases b)
    (auto simp: render_item_def material_calls_and_then material_calls_plain activate_def
      for_each_no_material emit_unpacked_no_material emit_polygon_no_material
      split: option.splits)

lemma render_item_starts_with_activate:
  "take 2 (fst (render_item ob (Some (ident, m), b))) = activate m"
  by (cases b) (simp add: render_item_def and_then_def activate_def split: prod.splits)

lemma activate_front: "list_all front_ambient_or_diffuse (activate m)"
  by (simp add: activate_def front_ambient_or_diffuse_def)

lemma render_items_material_calls:
  "list_all front_ambient_or_diffuse (material_calls (for_each (render_item ob) items))"
proof (induction items)
  case Nil
  then show ?case by (simp add: material_calls_plain)
next
  case (Cons item items)
  obtain texture b where item: "item = (texture, b)" by (cases item)
  from Cons show ?case
    by (auto simp: item material_calls_and_then render_item_material_calls activate_front
        split: option.splits)
qed

lemma render_items_exact:
  "snd (for_each (render_item ob) items) = None \<Longrightarrow>
   material_calls (for_each (render_item ob) items) =
     concat (map (\<lambda>(texture, b). case texture of None \<Rightarrow> [] | Some (ident, m) \<Rightarrow> activate m)
               items)"
proof (induction items)
  case Nil
  then show ?case by (simp add: material_calls_plain)
next
  case (Cons item items)
  obtain texture b where item: "item = (texture, b)" by (cases item)
  have "snd (render_item ob item) = None \<and> snd (for_each (render_item ob) items) = None"
    using Cons.prems
    by (cases "render_item ob item"; cases "for_each (render_item ob) items")
      (auto simp: and_then_def split: option.splits)
  with Cons.IH show ?case
    by (simp add: item material_calls_and_then render_item_material_calls)
qed

lemma never_specular_or_emission:
  assumes "list_all front_ambient_or_diffuse (material_calls e)"
  shows "glMaterialfv f GL_SPECULAR col \<notin> set (fst e)"
    and "glMaterialfv f GL_EMISSION col \<notin> set (fst e)"
proof -
  have "front_ambient_or_diffuse c" if "c \<in> set (fst e)" "is_material_call c" for c
    using assms that by (auto simp: material_calls_def list_all_iff)
  from this[of "glMaterialfv f GL_SPECULAR col"] this[of "glMaterialfv f GL_EMISSION col"]
  show "glMaterialfv f GL_SPECULAR col \<notin> set (fst e)"
    and "glMaterialfv f GL_EMISSION col \<notin> set (fst e)"
    by (auto simp: front_ambient_or_diffuse_def)
qed

subsection \<open>Evaluation of the concrete inputs\<close>

lemmas string_defs = isspace_def nonspace_def strip_def split_max1_def py_int_def py_digits_def
  is_digit_def dec_value_def float_of_literal_def

lemmas loader_defs = parse_model_def parse_line_def parse_vec_def parse_component_def
  getitem_pos_def bucket_index_def batch_append_def polys_append_def new_model_def
  parsemat_def parsemat_text_def parsemat_line_def save_existing_def save_mat_def
  Material_call_def Material_init_def default_colour_def assign_colour_def channel_def
  expand_colour_def colour_keywords_def component_indices_def records_def no_files_def

lemma sample_doc_parses: "parse_model float_of_literal no_files sample_doc = Inr sample_model"
  by (simp add: sample_doc_def sample_model_def string_defs loader_defs)

lemma sample_doc_parses_anywhere: "parse_model float_of_literal fs sample_doc = Inr sample_model"
  by (simp add: sample_doc_def sample_model_def string_defs loader_defs)

section \<open>The claims\<close>

subsection \<open>C1\<close>

text \<open>
  Claim C1, as the code has it. A face record is read after a document \<open>doc\<close>; each
  of its components carries a vertex index \<open>i\<close> and a normal index \<open>j\<close>. When every \<open>i\<close>
  lies between 1 and the number of \<^verbatim>\<open>v\<close> records of \<open>doc\<close>, and every \<open>j\<close> between 1 and
  the number of its \<^verbatim>\<open>vn\<close> records, each index resolves to the position of that entry of
  its table. When some \<open>i\<close> or \<open>j\<close> is greater than the number of entries defined so far,
  reading the face raises \<^verbatim>\<open>IndexError\<close> (the \<^verbatim>\<open>ReferenceError\<close> of the specification), and so
  does the whole parse. Nothing is said here about index zero.
\<close>

theorem face_indices_resolve_or_raise:
  assumes doc: "parse_model flt fs doc = Inr ob"
      and face: "split line = ''f'' # comps"
      and wf: "map component_indices comps = map Some ijs"
  shows "((\<forall>(i, j)\<in>set ijs. 1 \<le> i \<and> i \<le> int (length (records ''v'' doc))
                             \<and> 1 \<le> j \<and> j \<le> int (length (records ''vn'' doc))) \<longrightarrow>
            parse_points ob comps = Inr (map (\<lambda>(i, j). (nat i, nat j)) ijs)
          \<and> (\<forall>(i, j)\<in>set ijs. nat i < length (vertices ob) \<and> nat j < length (normals ob)))
       \<and> ((\<exists>(i, j)\<in>set ijs. int (length (records ''v'' doc)) < i
                             \<or> int (length (records ''vn'' doc)) < j) \<longrightarrow>
            parse_line flt fs ob line = Inl IndexError
          \<and> parse_model flt fs (doc @ line # rest) = Inl IndexError)"
proof (intro conjI impI)
  note n = parse_model_defined_so_far[OF doc]
  {
    assume r: "\<forall>(i, j)\<in>set ijs. 1 \<le> i \<and> i \<le> int (length (records ''v'' doc))
                             \<and> 1 \<le> j \<and> j \<le> int (length (records ''vn'' doc))"
    then show "parse_points ob comps = Inr (map (\<lambda>(i, j). (nat i, nat j)) ijs)"
      using parse_points_in_range[OF wf, of ob] n by simp
    from r n show "\<forall>(i, j)\<in>set ijs. nat i < length (vertices ob) \<and> nat j < length (normals ob)"
      by (auto simp: defined_so_far_def)
  }
  {
    assume "\<exists>(i, j)\<in>set ijs. int (length (records ''v'' doc)) < i
                             \<or> int (length (records ''vn'' doc)) < j"
    then have pts: "parse_points ob comps = Inl IndexError"
      using parse_points_too_large[OF wf, of ob] n by simp
    then show l: "parse_line flt fs ob line = Inl IndexError"
      by (simp add: parse_line_face[OF face])
    with doc show "parse_model flt fs (doc @ line # rest) = Inl IndexError"
      by (simp add: parse_model_def parse_lines_append)
  }
qed

text \<open>The theorem at concrete inputs.\<close>

theorem face_indices_resolve_or_raise_witness:
  "parse_points sample_model [''1/1/1'', ''2//1'', ''3/7/1''] = Inr [(1, 1), (2, 1), (3, 1)]
 \<and> parse_line float_of_literal no_files sample_model ''f 1/1/1 2/1/1 4/1/1\<newline>'' = Inl IndexError
 \<and> parse_model float_of_literal no_files (sample_doc @ [''f 1/1/1 2/1/2 3/1/1\<newline>''])
      = Inl IndexError"
proof -
  have a: "split ''f 1/1/1 2//1 3/7/1\<newline>'' = [''f'', ''1/1/1'', ''2//1'', ''3/7/1'']"
    by (simp add: string_defs)
  have b: "map component_indices [''1/1/1'', ''2//1'', ''3/7/1'']
             = map Some [(1, 1), (2, 1), (3, 1)]"
    by (simp add: string_defs loader_defs)
  have c: "split ''f 1/1/1 2/1/1 4/1/1\<newline>'' = [''f'', ''1/1/1'', ''2/1/1'', ''4/1/1'']"
    by (simp add: string_defs)
  have d: "map component_indices [''1/1/1'', ''2/1/1'', ''4/1/1'']
             = map Some [(1, 1), (2, 1), (4, 1)]"
    by (simp add: string_defs loader_defs)
  have e: "split ''f 1/1/1 2/1/2 3/1/1\<newline>'' = [''f'', ''1/1/1'', ''2/1/2'', ''3/1/1'']"
    by (simp add: string_defs)
  have f: "map component_indices [''1/1/1'', ''2/1/2'', ''3/1/1'']
             = map Some [(1, 1), (2, 2), (3, 1)]"
    by (simp add: string_defs loader_defs)
  have n: "length (records ''v'' sample_doc) = 3" "length (records ''vn'' sample_doc) = 1"
    by (simp_all add: sample_doc_def records_def string_defs)
  from face_indices_resolve_or_raise[OF sample_doc_parses a b]
  have 1: "parse_points sample_model [''1/1/1'', ''2//1'', ''3/7/1'']
             = Inr [(1, 1), (2, 1), (3, 1)]"
    by (simp add: n)
  from face_indices_resolve_or_raise[OF sample_doc_parses c d]
  have 2: "parse_line float_of_literal no_files sample_model ''f 1/1/1 2/1/1 4/1/1\<newline>''
             = Inl IndexError"
    by (simp add: n)
  from face_indices_resolve_or_raise[OF sample_doc_parses e f, of "[]"]
  have 3: "parse_model float_of_literal no_files (sample_doc @ [''f 1/1/1 2/1/2 3/1/1\<newline>''])
             = Inl IndexError"
    by (simp add: n)
  from 1 2 3 show ?thesis by blast
qed

text \<open>A face with a vertex index and a normal index of zero is read without error.\<close>

theorem index_zero_counterexample:
  "\<not> isl (parse_model float_of_literal no_files (sample_doc @ [''f 0/1/1 2/1/1 3/1/0\<newline>'']))
 \<and> polys (projr (parse_model float_of_literal no_files
        (sample_doc @ [''f 0/1/1 2/1/1 3/1/0\<newline>'']))) None
      = Some ([[(0, 1), (2, 1), (3, 0)]], [], [])"
  by (simp add: sample_doc_def string_defs loader_defs)

subsection \<open>C2\<close>

text \<open>
  Claim C2, as the code has it. A face whose components resolve to the list
  \<open>points\<close> is appended to the batch of the current material: to the triangles when
  there are 3 points, to the quads when there are 4, and to the general polygons for
  every other number of points. The size of the list never makes the record fail.
\<close>

theorem face_bucket_by_size:
  assumes face: "split line = ''f'' # comps" "comps \<noteq> []"
      and pts: "parse_points ob comps = Inr points"
      and old: "(case polys ob (currentmat ob) of None \<Rightarrow> ([], [], []) | Some b \<Rightarrow> b)
                  = (triangles, quads, polygons)"
  shows "length points = length comps
       \<and> parse_line flt fs ob line =
           Inr (ob\<lparr>polys := (polys ob)(currentmat ob \<mapsto>
                  (if length points = 3 then (triangles @ [points], quads, polygons)
                   else if length points = 4 then (triangles, quads @ [points], polygons)
                   else (triangles, quads, polygons @ [points])))\<rparr>)"
  using face(2) pts old parse_points_length[OF pts]
  by (simp add: parse_line_face[OF face(1)] polys_append_def batch_append_def bucket_index_def)

text \<open>The theorem at concrete inputs.\<close>

theorem face_bucket_by_size_witness:
  "parse_line float_of_literal no_files sample_model ''f 1/1/1 2/1/1 3/1/1\<newline>''
     = Inr (sample_model\<lparr>polys := (polys sample_model)(None \<mapsto>
              ([[(1, 1), (2, 1), (3, 1)]], [], []))\<rparr>)
 \<and> parse_line float_of_literal no_files sample_model ''f 1/1/1 2/1/1 3/1/1 1/1/1 2/1/1\<newline>''
     = Inr (sample_model\<lparr>polys := (polys sample_model)(None \<mapsto>
              ([], [], [[(1, 1), (2, 1), (3, 1), (1, 1), (2, 1)]]))\<rparr>)"
proof -
  have a: "split ''f 1/1/1 2/1/1 3/1/1\<newline>'' = [''f'', ''1/1/1'', ''2/1/1'', ''3/1/1'']"
    by (simp add: string_defs)
  have b: "parse_points sample_model [''1/1/1'', ''2/1/1'', ''3/1/1'']
             = Inr [(1, 1), (2, 1), (3, 1)]"
    by (simp add: sample_model_def string_defs loader_defs)
  have c: "split ''f 1/1/1 2/1/1 3/1/1 1/1/1 2/1/1\<newline>''
             = [''f'', ''1/1/1'', ''2/1/1'', ''3/1/1'', ''1/1/1'', ''2/1/1'']"
    by (simp add: string_defs)
  have d: "parse_points sample_model [''1/1/1'', ''2/1/1'', ''3/1/1'', ''1/1/1'', ''2/1/1'']
             = Inr [(1, 1), (2, 1), (3, 1), (1, 1), (2, 1)]"
    by (simp add: sample_model_def string_defs loader_defs)
  have old: "(case polys sample_model (currentmat sample_model) of
                None \<Rightarrow> ([], [], []) | Some b \<Rightarrow> b) = ([], [], [])"
    by (simp add: sample_model_def)
  have ne: "[''1/1/1'', ''2/1/1'', ''3/1/1''] \<noteq> []"
    "[''1/1/1'', ''2/1/1'', ''3/1/1'', ''1/1/1'', ''2/1/1''] \<noteq> []" by simp_all
  have cur: "currentmat sample_model = None" by (simp add: sample_model_def)
  from face_bucket_by_size[OF a ne(1) b old, of float_of_literal no_files]
    face_bucket_by_size[OF c ne(2) d old, of float_of_literal no_files]
  show ?thesis by (simp add: cur)
qed

text \<open>A face of two points is read without error and lands among the general polygons.\<close>

theorem short_face_counterexample:
  "\<not> isl (parse_model float_of_literal no_files (sample_doc @ [''f 1/1/1 2/1/1\<newline>'']))
 \<and> polys (projr (parse_model float_of_literal no_files
        (sample_doc @ [''f 1/1/1 2/1/1\<newline>'']))) None
      = Some ([], [], [[(1, 1), (2, 1)]])"
  by (simp add: sample_doc_def string_defs loader_defs)

subsection \<open>C3\<close>

text \<open>
  Claim C3, as the code has it. Take a \<^verbatim>\<open>Ka\<close>, \<^verbatim>\<open>Kd\<close>, \<^verbatim>\<open>Ks\<close> or \<^verbatim>\<open>Ke\<close> record that
  starts its line, whose values all convert, read after the lines \<open>pre\<close> of the library
  while a material is in progress. It stores into channel 0, 1, 2 or 3 of that
  material: one value \<open>c\<close> as \<open>[c, c, c, 0]\<close>, three values with \<open>0\<close> appended, and any
  other list of values as it is. Let the lines \<open>mid\<close> that follow hold no \<^verbatim>\<open>newmtl\<close> and be
  read without error. Then the material is constructed at the end of the library, or
  at the next \<^verbatim>\<open>newmtl\<close> record: the parse of the library, and the loop up to that
  \<^verbatim>\<open>newmtl\<close>, succeed with the material registered when every channel holds four
  entries, and raise \<^verbatim>\<open>AssertionError\<close> (the \<^verbatim>\<open>MalformedColorError\<close> of the specification)
  otherwise. So when the record has a number of values other than 1, 3 or 4 and what it
  stored is still in its channel, the parse of the library raises \<^verbatim>\<open>AssertionError\<close>.
\<close>

theorem colour_record_expansion:
  assumes pre: "parsemat_lines flt \<lparr>matname = None, mat = None, self = ob\<rparr> pre = Inr st"
      and prog: "mat st = Some m" "matname st = Some name"
      and kw: "split line = kw # toks" "kw \<in> set colour_keywords"
      and lead: "\<not> isspace (hd line)"
      and vals: "floats flt toks = Inr color"
      and k: "k = (if kw = ''Ka'' then 0 else if kw = ''Kd'' then 1
                   else if kw = ''Ks'' then 2 else 3)"
      and stored: "stored = (case color of
                               [c] \<Rightarrow> [c, c, c, 0]
                             | [r, g, b] \<Rightarrow> [r, g, b, 0]
                             | _ \<Rightarrow> color)"
      and mid: "\<forall>l\<in>set mid. take 1 (split l) \<noteq> [''newmtl'']"
               "parsemat_lines flt (st\<lparr>mat := Some (m[k := stored])\<rparr>) mid = Inr st2"
  shows "parsemat_line flt st line = Inr (st\<lparr>mat := Some (m[k := stored])\<rparr>)
       \<and> length color = length toks
       \<and> (\<exists>m2. mat st2 = Some m2 \<and> length m2 = 4
            \<and> parsemat_text flt ob (pre @ line # mid) =
                (if \<forall>c\<in>set m2. length c = 4
                 then Inr ((self st)\<lparr>mats := (mats (self st))(name \<mapsto> (created (self st),
                              \<lparr>ambient = m2 ! 0, diffuse = m2 ! 1, specular = m2 ! 2,
                                emission = m2 ! 3\<rparr>)),
                            created := Suc (created (self st))\<rparr>)
                 else Inl AssertionError)
            \<and> (\<forall>nl name2 others rest. split nl = ''newmtl'' # name2 # others \<longrightarrow>
                  parsemat_lines flt \<lparr>matname = None, mat = None, self = ob\<rparr>
                      (pre @ line # mid @ [nl]) =
                    (if \<forall>c\<in>set m2. length c = 4
                     then Inr \<lparr>matname = Some name2, mat = Some (replicate 4 default_colour),
                            self = (self st)\<lparr>mats := (mats (self st))(name \<mapsto>
                                (created (self st),
                                 \<lparr>ambient = m2 ! 0, diffuse = m2 ! 1, specular = m2 ! 2,
                                   emission = m2 ! 3\<rparr>)),
                              created := Suc (created (self st))\<rparr>\<rparr>
                     else Inl AssertionError)
                \<and> ((\<exists>c\<in>set m2. length c \<noteq> 4) \<longrightarrow>
                     parsemat_text flt ob (pre @ line # mid @ nl # rest) = Inl AssertionError))
            \<and> (length toks \<noteq> 1 \<and> length toks \<noteq> 3 \<and> length toks \<noteq> 4 \<and> m2 ! k = stored \<longrightarrow>
                  parsemat_text flt ob (pre @ line # mid) = Inl AssertionError
                \<and> (\<forall>nl name2 others rest. split nl = ''newmtl'' # name2 # others \<longrightarrow>
                     parsemat_text flt ob (pre @ line # mid @ nl # rest) = Inl AssertionError)))"
proof -
  let ?init = "\<lparr>matname = None, mat = None, self = ob\<rparr>"
  let ?st1 = "st\<lparr>mat := Some (m[k := stored])\<rparr>"
  have wf: "mat_wellformed st"
    using parsemat_lines_wellformed[OF pre] by (simp add: mat_wellformed_def)
  with prog(1) have m4: "length m = 4" by (simp add: mat_wellformed_def)
  have "name_wellformed st"
    using parsemat_lines_name_wellformed[OF pre] by (simp add: name_wellformed_def)
  with prog(2) have name: "name \<noteq> []" by (simp add: name_wellformed_def)
  from colour_line_shape[OF kw] lead k obtain c1 r where
    line: "line = CHR ''K'' # c1 # r" and ch: "channel c1 = Some k"
    by (auto split: if_splits)
  have k4: "k < 4" using k by simp
  have ex: "expand_colour color = stored"
    by (auto simp: stored expand_colour_def split: list.splits)
  have step: "parsemat_line flt st line = Inr ?st1"
    unfolding parsemat_line_colour[OF kw] using vals prog(1) m4 ch k4
    by (simp add: assign_colour_def line ex)
  have len: "length color = length toks" by (rule floats_length[OF vals])
  have wf1: "mat_wellformed ?st1" using m4 by (simp add: mat_wellformed_def)
  from parsemat_lines_same_material[OF mid(2) mid(1)] prog(2)
  have same: "matname st2 = Some name" "self st2 = self st" and "mat st2 \<noteq> None"
    by simp_all
  then obtain m2 where m2: "mat st2 = Some m2" by auto
  from parsemat_lines_wellformed[OF mid(2) wf1] m2 have m24: "length m2 = 4"
    by (simp add: mat_wellformed_def)
  have reach: "parsemat_lines flt ?init (pre @ line # mid) = Inr st2"
    using pre step mid(2) by (simp add: parsemat_lines_append)
  note fin = save_existing_in_progress[OF same(1) name m2 m24, unfolded same(2)]
  have atend: "parsemat_text flt ob (pre @ line # mid) = save_existing st2"
    using reach by (simp add: parsemat_text_def)
  have atnew: "parsemat_lines flt ?init (pre @ line # mid @ [nl]) =
      (case save_existing st2 of
         Inl e \<Rightarrow> Inl e
       | Inr ob' \<Rightarrow>
           Inr \<lparr>matname = Some name2, mat = Some (replicate 4 default_colour), self = ob'\<rparr>)"
    if "split nl = ''newmtl'' # name2 # others" for nl name2 others
    using reach parsemat_lines_append[of flt ?init "pre @ line # mid" "[nl]"]
    by (simp add: parsemat_line_newmtl[OF that] split: sum.splits)
  have failnew: "parsemat_text flt ob (pre @ line # mid @ nl # rest) = Inl AssertionError"
    if "split nl = ''newmtl'' # name2 # others" "\<exists>c\<in>set m2. length c \<noteq> 4"
    for nl name2 others rest
  proof -
    from that(2) have "save_existing st2 = Inl AssertionError"
      by (simp only: fin) auto
    with atnew[OF that(1)]
    have "parsemat_lines flt ?init ((pre @ line # mid @ [nl]) @ rest) = Inl AssertionError"
      by (simp only: parsemat_lines_append[of flt ?init "pre @ line # mid @ [nl]" rest]) simp
    then show ?thesis by (simp add: parsemat_text_def)
  qed
  have bad: "\<exists>c\<in>set m2. length c \<noteq> 4"
    if "length toks \<noteq> 1 \<and> length toks \<noteq> 3 \<and> length toks \<noteq> 4 \<and> m2 ! k = stored"
  proof -
    from that len have "length stored \<noteq> 4"
      by (auto simp: stored split: list.splits)
    moreover from that k4 m24 have "stored \<in> set m2" by (metis nth_mem)
    ultimately show ?thesis by blast
  qed
  have c3: "parsemat_text flt ob (pre @ line # mid) =
                (if \<forall>c\<in>set m2. length c = 4
                 then Inr ((self st)\<lparr>mats := (mats (self st))(name \<mapsto> (created (self st),
                              \<lparr>ambient = m2 ! 0, diffuse = m2 ! 1, specular = m2 ! 2,
                                emission = m2 ! 3\<rparr>)),
                            created := Suc (created (self st))\<rparr>)
                 else Inl AssertionError)"
    by (simp only: atend fin)
  have c4: "parsemat_lines flt ?init (pre @ line # mid @ [nl]) =
                    (if \<forall>c\<in>set m2. length c = 4
                     then Inr \<lparr>matname = Some name2, mat = Some (replicate 4 default_colour),
                            self = (self st)\<lparr>mats := (mats (self st))(name \<mapsto>
                                (created (self st),
                                 \<lparr>ambient = m2 ! 0, diffuse = m2 ! 1, specular = m2 ! 2,
                                   emission = m2 ! 3\<rparr>)),
                              created := Suc (created (self st))\<rparr>\<rparr>
                     else Inl AssertionError)"
    if "split nl = ''newmtl'' # name2 # others" for nl name2 others
    by (simp only: atnew[OF that] fin) simp
  have c5: "parsemat_text flt ob (pre @ line # mid) = Inl AssertionError"
    if "length toks \<noteq> 1 \<and> length toks \<noteq> 3 \<and> length toks \<noteq> 4 \<and> m2 ! k = stored"
    using bad[OF that] by (simp only: c3) auto
  from step len m2 m24 c3 c4 failnew c5 bad show ?thesis by blast
qed

text \<open>The theorem at concrete inputs.\<close>

theorem colour_record_expansion_witness:
  "parsemat_line float_of_literal in_progress ''Ka 1\<newline>''
     = Inr (in_progress\<lparr>mat := Some [[1, 1, 1, 0], [0, 0, 0, 0], [0, 0, 0, 0], [0, 0, 0, 0]]\<rparr>)
 \<and> parsemat_text float_of_literal new_model
       ([''newmtl red\<newline>''] @ ''Ka 1\<newline>'' # [''# diffuse\<newline>'', ''Kd 1 0 0\<newline>''])
     = Inr (new_model\<lparr>mats := (mats new_model)(''red'' \<mapsto> (0, red)), created := Suc 0\<rparr>)
 \<and> parsemat_line float_of_literal in_progress ''Ke 1 2\<newline>''
     = Inr (in_progress\<lparr>mat := Some [[0, 0, 0, 0], [0, 0, 0, 0], [0, 0, 0, 0], [1, 2]]\<rparr>)
 \<and> parsemat_text float_of_literal new_model
       ([''newmtl red\<newline>''] @ ''Ke 1 2\<newline>'' # [''# end\<newline>'']) = Inl AssertionError
 \<and> parsemat_text float_of_literal new_model
       ([''newmtl red\<newline>''] @ ''Ke 1 2\<newline>'' # [''# end\<newline>'']
          @ ''newmtl blue\<newline>'' # [''Ka 1\<newline>'']) = Inl AssertionError"
proof -
  let ?zero = "[0, 0, 0, 0] :: colour"
  have pre: "parsemat_lines float_of_literal \<lparr>matname = None, mat = None, self = new_model\<rparr>
      [''newmtl red\<newline>''] = Inr in_progress"
    by (simp add: in_progress_def string_defs loader_defs)
  have prog: "mat in_progress = Some [?zero, ?zero, ?zero, ?zero]"
    "matname in_progress = Some ''red''"
    by (simp_all add: in_progress_def default_colour_def numeral_eq_Suc)
  have kw: "''Ka'' \<in> set colour_keywords" "''Ke'' \<in> set colour_keywords"
    by (simp_all add: colour_keywords_def)
  have a: "split ''Ka 1\<newline>'' = [''Ka'', ''1'']"
    and c: "split ''Ke 1 2\<newline>'' = [''Ke'', ''1'', ''2'']"
    and n: "split ''newmtl blue\<newline>'' = ''newmtl'' # ''blue'' # []"
    by (simp_all add: string_defs)
  have la: "\<not> isspace (hd ''Ka 1\<newline>'')" and lc: "\<not> isspace (hd ''Ke 1 2\<newline>'')"
    by (simp_all add: isspace_def)
  have fa: "floats float_of_literal [''1''] = Inr [1]"
    and fc: "floats float_of_literal [''1'', ''2''] = Inr [1, 2]"
    by (simp_all add: string_defs)
  have ka: "(0::nat) = (if ''Ka'' = ''Ka'' then 0 else if ''Ka'' = ''Kd'' then 1
                        else if ''Ka'' = ''Ks'' then 2 else 3)"
    and ke: "(3::nat) = (if ''Ke'' = ''Ka'' then 0 else if ''Ke'' = ''Kd'' then 1
                        else if ''Ke'' = ''Ks'' then 2 else 3)"
    by simp_all
  have sa: "[1, 1, 1, 0] = (case [1::real] of [c] \<Rightarrow> [c, c, c, 0]
                             | [r, g, b] \<Rightarrow> [r, g, b, 0] | _ \<Rightarrow> [1])"
    and se: "[1, 2] = (case [1, 2::real] of [c] \<Rightarrow> [c, c, c, 0]
                             | [r, g, b] \<Rightarrow> [r, g, b, 0] | _ \<Rightarrow> [1, 2])"
    by simp_all
  have ma: "\<forall>l\<in>set [''# diffuse\<newline>'', ''Kd 1 0 0\<newline>'']. take 1 (split l) \<noteq> [''newmtl'']"
    and me: "\<forall>l\<in>set [''# end\<newline>'']. take 1 (split l) \<noteq> [''newmtl'']"
    by (simp_all add: string_defs)
  have ra: "parsemat_lines float_of_literal
        (in_progress\<lparr>mat := Some ([?zero, ?zero, ?zero, ?zero][0 := [1, 1, 1, 0]])\<rparr>)
        [''# diffuse\<newline>'', ''Kd 1 0 0\<newline>'']
      = Inr (in_progress\<lparr>mat := Some [[1, 1, 1, 0], [1, 0, 0, 0], ?zero, ?zero]\<rparr>)"
    by (simp add: in_progress_def string_defs loader_defs)
  have re: "parsemat_lines float_of_literal
        (in_progress\<lparr>mat := Some ([?zero, ?zero, ?zero, ?zero][3 := [1, 2]])\<rparr>)
        [''# end\<newline>'']
      = Inr (in_progress\<lparr>mat := Some [?zero, ?zero, ?zero, [1, 2]]\<rparr>)"
    by (simp add: in_progress_def string_defs loader_defs)
  note ta = colour_record_expansion[OF pre prog a kw(1) la fa ka sa ma ra]
  note te = colour_record_expansion[OF pre prog c kw(2) lc fc ke se me re]
  from ta have 1: "parsemat_line float_of_literal in_progress ''Ka 1\<newline>''
     = Inr (in_progress\<lparr>mat := Some [[1, 1, 1, 0], ?zero, ?zero, ?zero]\<rparr>)"
    by simp
  from ta have 2: "parsemat_text float_of_literal new_model
       ([''newmtl red\<newline>''] @ ''Ka 1\<newline>'' # [''# diffuse\<newline>'', ''Kd 1 0 0\<newline>''])
     = Inr (new_model\<lparr>mats := (mats new_model)(''red'' \<mapsto> (0, red)), created := Suc 0\<rparr>)"
    by (auto simp: in_progress_def new_model_def red_def)
  from te have 3: "parsemat_line float_of_literal in_progress ''Ke 1 2\<newline>''
     = Inr (in_progress\<lparr>mat := Some [?zero, ?zero, ?zero, [1, 2]]\<rparr>)"
    by simp
  from te have 4: "parsemat_text float_of_literal new_model
       ([''newmtl red\<newline>''] @ ''Ke 1 2\<newline>'' # [''# end\<newline>'']) = Inl AssertionError"
    by (auto simp: in_progress_def)
  from te n have 5: "parsemat_text float_of_literal new_model
       ([''newmtl red\<newline>''] @ ''Ke 1 2\<newline>'' # [''# end\<newline>'']
          @ ''newmtl blue\<newline>'' # [''Ka 1\<newline>'']) = Inl AssertionError"
    by (auto simp: in_progress_def)
  from 1 2 3 4 5 show ?thesis by blast
qed

text \<open>A colour record with two values is stored as it is, and the library parses when a later record replaces it.\<close>

theorem replaced_colour_counterexample:
  "parsemat_line float_of_literal in_progress ''Ka 1 2\<newline>''
     = Inr (in_progress\<lparr>mat := Some [[1, 2], [0, 0, 0, 0], [0, 0, 0, 0], [0, 0, 0, 0]]\<rparr>)
 \<and> \<not> isl (parsemat_text float_of_literal new_model
            [''newmtl red\<newline>'', ''Ka 1 2\<newline>'', ''Ka 1 2 3\<newline>''])
 \<and> map_option snd (mats (projr (parsemat_text float_of_literal new_model
            [''newmtl red\<newline>'', ''Ka 1 2\<newline>'', ''Ka 1 2 3\<newline>''])) ''red'')
     = Some \<lparr>ambient = [1, 2, 3, 0], diffuse = [0, 0, 0, 0], specular = [0, 0, 0, 0],
              emission = [0, 0, 0, 0]\<rparr>"
  by (simp add: in_progress_def string_defs loader_defs numeral_eq_Suc)

subsection \<open>C4\<close>

text \<open>
  Claim C4. A record \<^verbatim>\<open>usemtl name\<close> raises \<^verbatim>\<open>KeyError\<close> (the \<^verbatim>\<open>MaterialNotFoundError\<close>
  of the specification) when \<open>name\<close> is not in the registry at that point, and the parse
  of the document then ends with that error; otherwise it makes the registered
  material the current one. The material stays current over
  every following record that is not a \<^verbatim>\<open>usemtl\<close>, and a face read then is appended to the
  batch under that material.
\<close>

theorem usemtl_selects_current_material:
  assumes "split line = ''usemtl'' # name # rest"
  shows "parse_line flt fs ob line =
           (case mats ob name of
              None \<Rightarrow> Inl KeyError
            | Some m \<Rightarrow> Inr (ob\<lparr>currentmat := Some m\<rparr>))
       \<and> (\<forall>m between face comps ob'.
            mats ob name = Some m \<longrightarrow>
            (\<forall>l\<in>set between. take 1 (split l) \<noteq> [''usemtl'']) \<longrightarrow>
            split face = ''f'' # comps \<longrightarrow>
            parse_lines flt fs ob (line # between @ [face]) = Inr ob' \<longrightarrow>
            (\<exists>ob1 points.
               parse_lines flt fs ob (line # between) = Inr ob1
             \<and> currentmat ob1 = Some m
             \<and> parse_points ob1 comps = Inr points
             \<and> polys ob' = polys_append (polys ob1) (Some m) (bucket_index points) points))
       \<and> (\<forall>before rest start.
            parse_lines flt fs start before = Inr ob \<longrightarrow> mats ob name = None \<longrightarrow>
            parse_lines flt fs start (before @ line # rest) = Inl KeyError)"
proof (intro conjI allI impI)
  fix before rest start
  assume "parse_lines flt fs start before = Inr ob" and "mats ob name = None"
  then show "parse_lines flt fs start (before @ line # rest) = Inl KeyError"
    using parse_line_usemtl[OF assms, of flt fs ob] by (simp add: parse_lines_append)
next
  show "parse_line flt fs ob line =
           (case mats ob name of
              None \<Rightarrow> Inl KeyError
            | Some m \<Rightarrow> Inr (ob\<lparr>currentmat := Some m\<rparr>))"
    by (rule parse_line_usemtl[OF assms])
next
  fix m between face comps ob'
  assume m: "mats ob name = Some m"
    and btw: "\<forall>l\<in>set between. take 1 (split l) \<noteq> [''usemtl'']"
    and face: "split face = ''f'' # comps"
    and run: "parse_lines flt fs ob (line # between @ [face]) = Inr ob'"
  have step: "parse_line flt fs ob line = Inr (ob\<lparr>currentmat := Some m\<rparr>)"
    using parse_line_usemtl[OF assms] m by simp
  from run obtain ob1 where
    ob1: "parse_lines flt fs (ob\<lparr>currentmat := Some m\<rparr>) between = Inr ob1"
    and last: "parse_line flt fs ob1 face = Inr ob'"
    using step by (auto simp: parse_lines_append split: sum.splits)
  have cur: "currentmat ob1 = Some m"
    using parse_lines_currentmat[OF ob1 btw] by simp
  from last face obtain points where
    pts: "parse_points ob1 comps = Inr points"
    and ob': "ob' = ob1\<lparr>polys := polys_append (polys ob1) (currentmat ob1)
                (bucket_index points) points\<rparr>"
    by (auto simp: parse_line_face split: if_splits sum.splits)
  show "\<exists>ob1 points.
               parse_lines flt fs ob (line # between) = Inr ob1
             \<and> currentmat ob1 = Some m
             \<and> parse_points ob1 comps = Inr points
             \<and> polys ob' = polys_append (polys ob1) (Some m) (bucket_index points) points"
    using step ob1 cur pts ob' by auto
qed

text \<open>The theorem at concrete inputs.\<close>

theorem usemtl_selects_current_material_witness:
  "parse_line float_of_literal no_files with_red ''usemtl red\<newline>''
     = Inr (with_red\<lparr>currentmat := Some (0, red)\<rparr>)
 \<and> parse_line float_of_literal no_files with_red ''usemtl blue\<newline>'' = Inl KeyError
 \<and> polys (projr (parse_lines float_of_literal no_files with_red
        [''usemtl red\<newline>'', ''v 1 1 0\<newline>'', ''f 1/1/1 2/1/1 4/1/1\<newline>'']))
      (Some (0, red))
     = Some ([[(1, 1), (2, 1), (4, 1)]], [], [])
 \<and> parse_lines float_of_literal no_files with_red
      ([] @ ''usemtl blue\<newline>'' # [''f 1/1/1 2/1/1 3/1/1\<newline>'']) = Inl KeyError"
proof -
  have a: "split ''usemtl red\<newline>'' = ''usemtl'' # ''red'' # []" by (simp add: string_defs)
  have b: "split ''usemtl blue\<newline>'' = ''usemtl'' # ''blue'' # []" by (simp add: string_defs)
  have r: "mats with_red ''red'' = Some (0, red)" and n: "mats with_red ''blue'' = None"
    by (simp_all add: with_red_def)
  have btw: "\<forall>l\<in>set [''v 1 1 0\<newline>'']. take 1 (split l) \<noteq> [''usemtl'']"
    by (simp add: string_defs)
  have f: "split ''f 1/1/1 2/1/1 4/1/1\<newline>'' = ''f'' # [''1/1/1'', ''2/1/1'', ''4/1/1'']"
    by (simp add: string_defs)
  have run: "parse_lines float_of_literal no_files with_red
        (''usemtl red\<newline>'' # [''v 1 1 0\<newline>''] @ [''f 1/1/1 2/1/1 4/1/1\<newline>''])
      = Inr (with_red\<lparr>vertices := vertices with_red @ [Some (1, 1, 0)],
               polys := [Some (0, red) \<mapsto> ([[(1, 1), (2, 1), (4, 1)]], [], [])],
               currentmat := Some (0, red)\<rparr>)"
    by (simp add: with_red_def sample_model_def string_defs loader_defs)
  note t = usemtl_selects_current_material[OF a, of float_of_literal no_files with_red]
  note u = usemtl_selects_current_material[OF b, of float_of_literal no_files with_red]
  from t r have 1: "parse_line float_of_literal no_files with_red ''usemtl red\<newline>''
     = Inr (with_red\<lparr>currentmat := Some (0, red)\<rparr>)" by simp
  from u n have 2: "parse_line float_of_literal no_files with_red ''usemtl blue\<newline>''
     = Inl KeyError" by simp
  from t[THEN conjunct2, THEN conjunct1, rule_format, OF r btw[rule_format] f run]
  obtain ob1 points where
    "parse_lines float_of_literal no_files with_red [''usemtl red\<newline>'', ''v 1 1 0\<newline>'']
       = Inr ob1"
    "parse_points ob1 [''1/1/1'', ''2/1/1'', ''4/1/1''] = Inr points"
    "polys (with_red\<lparr>vertices := vertices with_red @ [Some (1, 1, 0)],
               polys := [Some (0, red) \<mapsto> ([[(1, 1), (2, 1), (4, 1)]], [], [])],
               currentmat := Some (0, red)\<rparr>)
       = polys_append (polys ob1) (Some (0, red)) (bucket_index points) points"
    by auto
  have 3: "polys (projr (parse_lines float_of_literal no_files with_red
        [''usemtl red\<newline>'', ''v 1 1 0\<newline>'', ''f 1/1/1 2/1/1 4/1/1\<newline>'']))
      (Some (0, red)) = Some ([[(1, 1), (2, 1), (4, 1)]], [], [])"
    using run by simp
  have e: "parse_lines float_of_literal no_files with_red [] = Inr with_red" by simp
  from u[THEN conjunct2, THEN conjunct2, rule_format, OF e n]
  have 4: "parse_lines float_of_literal no_files with_red
      ([] @ ''usemtl blue\<newline>'' # [''f 1/1/1 2/1/1 3/1/1\<newline>'']) = Inl KeyError" .
  from 1 2 3 4 show ?thesis by blast
qed

subsection \<open>C6\<close>

text \<open>
  Claim C6, as the code has it. The perturbation acts on the parsed model itself:
  after it, entry \<open>k\<close> of the vertex table is the parsed entry multiplied by draw number
  \<open>k - 1\<close>, and nothing else of the model is changed. The faces refer to the same
  arrays, so the calls made for a point of a face carry the scaled vertex. Every
  \<^verbatim>\<open>AsteroidModel\<close> parses \<^verbatim>\<open>asteroid.obj\<close> itself and scales that parse by its own draws.
\<close>

theorem perturbation_scales_in_place:
  assumes "parse_model flt fs lines = Inr ob"
  shows "perturb uniform ob =
           Inr (ob\<lparr>vertices := None # map (\<lambda>(i, v). map_option (\<lambda>a. imul a (uniform i)) v)
                                           (enumerate 0 (tl (vertices ob)))\<rparr>)
       \<and> (\<forall>ob' pt n. perturb uniform ob = Inr ob' \<longrightarrow> 0 < pt \<longrightarrow> pt < length (vertices ob) \<longrightarrow>
            emit_point ob' (pt, n) =
              [glNormal3dv (deref (normals ob) n),
               glVertex3dv (map_option (\<lambda>a. imul a (uniform (pt - 1))) (deref (vertices ob) pt))])
       \<and> (fs ''asteroid.obj'' = Some lines \<longrightarrow>
            (\<forall>draws. AsteroidModel_init flt fs draws =
               Inr (ob\<lparr>vertices := None # map (\<lambda>(i, v). map_option (\<lambda>a. imul a (draws i)) v)
                                               (enumerate 0 (tl (vertices ob)))\<rparr>)))"
proof -
  note wf = parse_model_vertices_wellformed[OF assms]
  note eq = perturb_wellformed[OF wf, of uniform]
  have "emit_point ob' (pt, n) =
              [glNormal3dv (deref (normals ob) n),
               glVertex3dv (map_option (\<lambda>a. imul a (uniform (pt - 1))) (deref (vertices ob) pt))]"
    if "perturb uniform ob = Inr ob'" "0 < pt" "pt < length (vertices ob)" for ob' pt n
  proof -
    from that(1) eq have ob': "ob' = ob\<lparr>vertices := None # map (\<lambda>(i, v). map_option (\<lambda>a. imul a (uniform i)) v)
                                           (enumerate 0 (tl (vertices ob)))\<rparr>" by simp
    from that(2,3) obtain q where q: "pt = Suc q" "q < length (tl (vertices ob))"
      by (cases pt) auto
    then have "vertices ob ! pt = tl (vertices ob) ! q"
      by (cases "vertices ob") auto
    with q that(3) show ?thesis
      by (simp add: ob' emit_point_def deref_def nth_enumerate_eq)
  qed
  moreover have "AsteroidModel_init flt fs draws =
               Inr (ob\<lparr>vertices := None # map (\<lambda>(i, v). map_option (\<lambda>a. imul a (draws i)) v)
                                               (enumerate 0 (tl (vertices ob)))\<rparr>)"
    if "fs ''asteroid.obj'' = Some lines" for draws
    using that assms perturb_wellformed[OF wf, of draws]
    by (simp add: AsteroidModel_init_def parse_model_file_def)
  ultimately show ?thesis using eq by blast
qed

text \<open>The theorem at concrete inputs, with draws inside the range.\<close>

theorem perturbation_scales_in_place_witness:
  "perturb (always (5 / 4)) sample_model
     = Inr (sample_model\<lparr>vertices :=
              [None, Some (0, 0, 0), Some (5 / 4, 0, 0), Some (0, 5 / 4, 0)]\<rparr>)
 \<and> emit_point
       (sample_model\<lparr>vertices :=
              [None, Some (0, 0, 0), Some (5 / 4, 0, 0), Some (0, 5 / 4, 0)]\<rparr>) (2, 1)
     = [glNormal3dv (Some (0, 0, 1)), glVertex3dv (Some (5 / 4, 0, 0))]
 \<and> AsteroidModel_init float_of_literal asteroid_files (always (4 / 5))
     = Inr (sample_model\<lparr>vertices :=
              [None, Some (0, 0, 0), Some (4 / 5, 0, 0), Some (0, 4 / 5, 0)]\<rparr>)"
proof -
  note t = perturbation_scales_in_place[OF sample_doc_parses_anywhere[of asteroid_files],
      of "always (5 / 4)"]
  have en: "enumerate 0 (tl (vertices sample_model))
      = [(0, Some (0, 0, 0)), (1, Some (1, 0, 0)), (2, Some (0, 1, 0))]"
    by (simp add: sample_model_def enumerate_eq_zip upt_rec[of 0]
        upt_rec[of "Suc 0"] upt_rec[of "Suc (Suc 0)"])
  from t have 1: "perturb (always (5 / 4)) sample_model
     = Inr (sample_model\<lparr>vertices :=
              [None, Some (0, 0, 0), Some (5 / 4, 0, 0), Some (0, 5 / 4, 0)]\<rparr>)"
    unfolding en by (simp add: always_def imul_def)
  have 2: "(0::nat) < 2" "2 < length (vertices sample_model)" by (simp_all add: sample_model_def)
  from t[THEN conjunct2, THEN conjunct1, rule_format, OF 1 2, of 1]
  have 3: "emit_point
       (sample_model\<lparr>vertices :=
              [None, Some (0, 0, 0), Some (5 / 4, 0, 0), Some (0, 5 / 4, 0)]\<rparr>) (2, 1)
     = [glNormal3dv (Some (0, 0, 1)), glVertex3dv (Some (5 / 4, 0, 0))]"
    by (simp add: sample_model_def deref_def always_def imul_def)
  have f: "asteroid_files ''asteroid.obj'' = Some sample_doc" by (simp add: asteroid_files_def)
  from t[THEN conjunct2, THEN conjunct2, rule_format, OF f, of "always (4 / 5)"]
  have 4: "AsteroidModel_init float_of_literal asteroid_files (always (4 / 5))
     = Inr (sample_model\<lparr>vertices :=
              [None, Some (0, 0, 0), Some (4 / 5, 0, 0), Some (0, 4 / 5, 0)]\<rparr>)"
    unfolding en by (simp add: always_def imul_def)
  from 1 3 4 show ?thesis by blast
qed

text \<open>
  With every draw equal to 5/4, which lies in the range, the vertex table of the parsed
  model holds other values after the perturbation than before.
\<close>

theorem vertex_table_modified_counterexample:
  "in_uniform_range (5 / 4)
 \<and> parse_model float_of_literal no_files sample_doc = Inr sample_model
 \<and> vertices sample_model = [None, Some (0, 0, 0), Some (1, 0, 0), Some (0, 1, 0)]
 \<and> \<not> isl (perturb (always (5 / 4)) sample_model)
 \<and> vertices (projr (perturb (always (5 / 4)) sample_model))
     = [None, Some (0, 0, 0), Some (5 / 4, 0, 0), Some (0, 5 / 4, 0)]
 \<and> vertices (projr (AsteroidModel_init float_of_literal asteroid_files (always (5 / 4))))
     = [None, Some (0, 0, 0), Some (5 / 4, 0, 0), Some (0, 5 / 4, 0)]"
proof -
  have "AsteroidModel_init float_of_literal asteroid_files (always (5 / 4))
      = perturb (always (5 / 4)) sample_model"
    by (simp add: AsteroidModel_init_def parse_model_file_def asteroid_files_def
        sample_doc_parses_anywhere)
  moreover have "perturb (always (5 / 4)) sample_model
     = Inr (sample_model\<lparr>vertices :=
              [None, Some (0, 0, 0), Some (5 / 4, 0, 0), Some (0, 5 / 4, 0)]\<rparr>)"
    by (simp add: sample_model_def perturb_def always_def imul_def)
  moreover have "vertices sample_model = [None, Some (0, 0, 0), Some (1, 0, 0), Some (0, 1, 0)]"
    by (simp add: sample_model_def)
  ultimately show ?thesis
    by (simp add: in_uniform_range_def sample_doc_parses)
qed

subsection \<open>C7\<close>

text \<open>
  Claim C7. With a randomness source that always returns 1, the perturbation of a
  parsed model returns the model as it was, vertex table included; so the
  constructor of the asteroid yields what parsing \<^verbatim>\<open>asteroid.obj\<close> yields.
\<close>

theorem perturb_by_one_is_identity:
  "(parse_model flt fs lines = Inr ob \<longrightarrow> perturb (always 1) ob = Inr ob)
 \<and> AsteroidModel_init flt fs (always 1) = parse_model_file flt fs ''asteroid.obj''"
proof -
  have one: "perturb (always 1) ob = Inr ob" if "parse_model flt fs lines = Inr ob" for lines ob
  proof -
    from parse_model_vertices_wellformed[OF that] show ?thesis
      by (cases "vertices ob") (auto simp: perturb_def table_wellformed_def scale_all_always_one)
  qed
  then have "AsteroidModel_init flt fs (always 1) = parse_model_file flt fs ''asteroid.obj''"
    by (auto simp: AsteroidModel_init_def parse_model_file_def split: option.splits sum.splits)
  with one show ?thesis by blast
qed

text \<open>The theorem at concrete inputs.\<close>

theorem perturb_by_one_is_identity_witness:
  "perturb (always 1) sample_model = Inr sample_model"
  using perturb_by_one_is_identity[of float_of_literal no_files sample_doc sample_model]
    sample_doc_parses by simp

subsection \<open>C8\<close>

text \<open>
  Claim C8. Whatever the order of the items, every material call made while the
  display list is compiled sets the ambient or the diffuse component of the front
  face; no call sets the specular or the emission component. For an item whose key
  is a material, rendering starts with the ambient and the diffuse call of that
  material and makes no other material call; for the key \<^verbatim>\<open>None\<close> it makes none.
\<close>

theorem only_ambient_and_diffuse_are_activated:
  "list_all front_ambient_or_diffuse (material_calls (create_displaylist handle order ob))
 \<and> glMaterialfv f GL_SPECULAR col \<notin> set (fst (create_displaylist handle order ob))
 \<and> glMaterialfv f GL_EMISSION col \<notin> set (fst (create_displaylist handle order ob))
 \<and> list_all front_ambient_or_diffuse (material_calls (render order ob))
 \<and> material_calls (render_item ob (Some (ident, m), b)) =
     [glMaterialfv GL_FRONT GL_AMBIENT (ambient m), glMaterialfv GL_FRONT GL_DIFFUSE (diffuse m)]
 \<and> take 2 (fst (render_item ob (Some (ident, m), b))) =
     [glMaterialfv GL_FRONT GL_AMBIENT (ambient m), glMaterialfv GL_FRONT GL_DIFFUSE (diffuse m)]
 \<and> material_calls (render_item ob (None, b)) = []
 \<and> (snd (render order ob) = None \<longrightarrow>
      material_calls (render order ob) =
        concat (map (\<lambda>(texture, b). case texture of None \<Rightarrow> [] | Some (ident, m) \<Rightarrow> activate m)
                  (iteritems (polys ob) order)))"
proof -
  have r: "list_all front_ambient_or_diffuse (material_calls (render order ob))"
    by (simp add: render_def render_items_material_calls)
  then have d: "list_all front_ambient_or_diffuse
               (material_calls (create_displaylist handle order ob))"
    by (simp add: create_displaylist_def material_calls_and_then material_calls_plain)
  note never_specular_or_emission[OF d, of f col]
  moreover have "material_calls (render_item ob (Some (ident, m), b)) =
     [glMaterialfv GL_FRONT GL_AMBIENT (ambient m), glMaterialfv GL_FRONT GL_DIFFUSE (diffuse m)]"
    by (simp add: render_item_material_calls activate_def)
  moreover have "take 2 (fst (render_item ob (Some (ident, m), b))) =
     [glMaterialfv GL_FRONT GL_AMBIENT (ambient m), glMaterialfv GL_FRONT GL_DIFFUSE (diffuse m)]"
    by (simp add: render_item_starts_with_activate activate_def)
  moreover have "material_calls (render_item ob (None, b)) = []"
    by (simp add: render_item_material_calls)
  moreover have "material_calls (render order ob) =
        concat (map (\<lambda>(texture, b). case texture of None \<Rightarrow> [] | Some (ident, m) \<Rightarrow> activate m)
                  (iteritems (polys ob) order))" if "snd (render order ob) = None"
    using that unfolding render_def by (rule render_items_exact)
  ultimately show ?thesis using r d by blast
qed

text \<open>The theorem at concrete inputs.\<close>

theorem only_ambient_and_diffuse_are_activated_witness:
  "snd (render [Some (0, red), None] two_batches) = None
 \<and> material_calls (render [Some (0, red), None] two_batches)
     = [glMaterialfv GL_FRONT GL_AMBIENT [1, 1, 1, 0], glMaterialfv GL_FRONT GL_DIFFUSE [1, 0, 0, 0]]
 \<and> fst (create_displaylist 1 [Some (0, red), None] two_batches)
     = [glGenLists 1, glNewList 1 GL_COMPILE,
        glMaterialfv GL_FRONT GL_AMBIENT [1, 1, 1, 0], glMaterialfv GL_FRONT GL_DIFFUSE [1, 0, 0, 0],
        glBegin GL_TRIANGLES,
        glNormal3dv (Some (0, 0, 1)), glVertex3dv (Some (0, 0, 0)),
        glNormal3dv (Some (0, 0, 1)), glVertex3dv (Some (1, 0, 0)),
        glNormal3dv (Some (0, 0, 1)), glVertex3dv (Some (0, 1, 0)),
        glEnd,
        glBegin GL_POLYGON,
        glNormal3dv (Some (0, 0, 1)), glVertex3dv (Some (0, 0, 0)),
        glNormal3dv (Some (0, 0, 1)), glVertex3dv (Some (1, 0, 0)),
        glEnd,
        glEndList]"
proof -
  have ok: "snd (render [Some (0, red), None] two_batches) = None"
    by (simp add: render_def iteritems_def two_batches_def with_red_def sample_model_def
        render_item_def and_then_def emit_unpacked_def emit_polygon_def emit_point_def deref_def)
  have items: "iteritems (polys two_batches) [Some (0, red), None]
      = [(Some (0, red), ([[(1, 1), (2, 1), (3, 1)]], [], [])),
         (None, ([], [], [[(1, 1), (2, 1)]]))]"
    by (simp add: iteritems_def two_batches_def)
  from only_ambient_and_diffuse_are_activated[of 1 "[Some (0, red), None]" two_batches] ok
  have "material_calls (render [Some (0, red), None] two_batches)
     = concat (map (\<lambda>(texture, b). case texture of None \<Rightarrow> [] | Some (ident, m) \<Rightarrow> activate m)
                  (iteritems (polys two_batches) [Some (0, red), None]))"
    by blast
  then have "material_calls (render [Some (0, red), None] two_batches)
     = [glMaterialfv GL_FRONT GL_AMBIENT [1, 1, 1, 0], glMaterialfv GL_FRONT GL_DIFFUSE [1, 0, 0, 0]]"
    unfolding items by (simp add: activate_def red_def)
  moreover have "fst (create_displaylist 1 [Some (0, red), None] two_batches)
     = [glGenLists 1, glNewList 1 GL_COMPILE,
        glMaterialfv GL_FRONT GL_AMBIENT [1, 1, 1, 0], glMaterialfv GL_FRONT GL_DIFFUSE [1, 0, 0, 0],
        glBegin GL_TRIANGLES,
        glNormal3dv (Some (0, 0, 1)), glVertex3dv (Some (0, 0, 0)),
        glNormal3dv (Some (0, 0, 1)), glVertex3dv (Some (1, 0, 0)),
        glNormal3dv (Some (0, 0, 1)), glVertex3dv (Some (0, 1, 0)),
        glEnd,
        glBegin GL_POLYGON,
        glNormal3dv (Some (0, 0, 1)), glVertex3dv (Some (0, 0, 0)),
        glNormal3dv (Some (0, 0, 1)), glVertex3dv (Some (1, 0, 0)),
        glEnd,
        glEndList]"
    unfolding create_displaylist_def render_def items
    by (simp add: two_batches_def with_red_def sample_model_def red_def activate_def
        render_item_def and_then_def emit_unpacked_def emit_polygon_def emit_point_def deref_def)
  ultimately show ?thesis using ok by blast
qed

subsection \<open>C9\<close>

text \<open>
  Claim C9, as the code has it. For a colour record reached after the lines \<open>pre\<close> of
  the library, the list of floats is built first: a value that does not convert raises
  \<^verbatim>\<open>ValueError\<close>. Otherwise the channel stored into is given by the second character of
  the raw line: a character that is none of \<^verbatim>\<open>a\<close>, \<^verbatim>\<open>d\<close>, \<^verbatim>\<open>s\<close>, \<^verbatim>\<open>e\<close> raises \<^verbatim>\<open>KeyError\<close>. When
  the line starts with whitespace that character is never one of the four, so the
  record, and with it the parse of the library, fails although its keyword is
  recognized: with \<^verbatim>\<open>KeyError\<close> when its values all convert, with \<^verbatim>\<open>ValueError\<close> when one
  does not.
\<close>

theorem colour_channel_is_second_character:
  assumes pre: "parsemat_lines flt \<lparr>matname = None, mat = None, self = ob\<rparr> pre = Inr st"
      and kw: "split line = kw # toks" "kw \<in> set colour_keywords"
  shows "1 < length line
       \<and> parsemat_line flt st line =
           (case floats flt toks of
              Inl e \<Rightarrow> Inl ValueError
            | Inr color \<Rightarrow>
                (case channel (line ! 1) of
                   None \<Rightarrow> Inl KeyError
                 | Some k \<Rightarrow>
                     (case mat st of
                        None \<Rightarrow> Inl TypeError
                      | Some m \<Rightarrow> Inr (st\<lparr>mat := Some (m[k := expand_colour color])\<rparr>))))
       \<and> (isspace (hd line) \<longrightarrow>
            channel (line ! 1) = None
          \<and> parsemat_line flt st line =
              (case floats flt toks of Inl e \<Rightarrow> Inl ValueError | Inr color \<Rightarrow> Inl KeyError)
          \<and> parsemat_text flt ob (pre @ line # rest) =
              (case floats flt toks of Inl e \<Rightarrow> Inl ValueError | Inr color \<Rightarrow> Inl KeyError))"
proof -
  from colour_line_shape[OF kw] obtain c0 c1 r where
    line: "line = c0 # c1 # r" and
    sh: "if isspace c0 then channel c1 = None
         else kw = [CHR ''K'', c1] \<and> c0 = CHR ''K''
            \<and> channel c1 = Some (if kw = ''Ka'' then 0 else if kw = ''Kd'' then 1
                                  else if kw = ''Ks'' then 2 else 3)"
    by blast
  have wf: "mat_wellformed st"
    using parsemat_lines_wellformed[OF pre] by (simp add: mat_wellformed_def)
  have k4: "channel c1 = Some k \<Longrightarrow> k < 4" for k
    by (auto simp: channel_def split: if_splits)
  have step: "parsemat_line flt st line =
           (case floats flt toks of
              Inl e \<Rightarrow> Inl ValueError
            | Inr color \<Rightarrow>
                (case channel (line ! 1) of
                   None \<Rightarrow> Inl KeyError
                 | Some k \<Rightarrow>
                     (case mat st of
                        None \<Rightarrow> Inl TypeError
                      | Some m \<Rightarrow> Inr (st\<lparr>mat := Some (m[k := expand_colour color])\<rparr>))))"
    unfolding parsemat_line_colour[OF kw]
    using wf k4
    by (auto simp: assign_colour_def line mat_wellformed_def
        split: option.splits sum.splits dest: floats_error)
  have ch: "channel (line ! 1) = None" if "isspace (hd line)"
    using that sh by (simp add: line)
  have ws: "parsemat_line flt st line =
              (case floats flt toks of Inl e \<Rightarrow> Inl ValueError | Inr color \<Rightarrow> Inl KeyError)"
    if "isspace (hd line)"
    using ch[OF that] by (simp add: step split: sum.splits)
  have "parsemat_text flt ob (pre @ line # rest) =
              (case floats flt toks of Inl e \<Rightarrow> Inl ValueError | Inr color \<Rightarrow> Inl KeyError)"
    if "isspace (hd line)"
    using ws[OF that] pre
    by (simp add: parsemat_text_def parsemat_lines_append split: sum.splits)
  with step ws ch line show ?thesis by simp
qed

text \<open>The theorem at concrete inputs.\<close>

theorem colour_channel_is_second_character_witness:
  "parsemat_lines float_of_literal \<lparr>matname = None, mat = None, self = new_model\<rparr>
      [''newmtl red\<newline>''] = Inr in_progress
 \<and> parsemat_line float_of_literal in_progress ''Ks 1 0 0 1\<newline>''
     = Inr (in_progress\<lparr>mat := Some [[0, 0, 0, 0], [0, 0, 0, 0], [1, 0, 0, 1], [0, 0, 0, 0]]\<rparr>)
 \<and> parsemat_line float_of_literal in_progress '' Ka 1\<newline>'' = Inl KeyError
 \<and> parsemat_text float_of_literal new_model
      ([''newmtl red\<newline>''] @ '' Ka 1\<newline>'' # [''Kd 1 0 0\<newline>'']) = Inl KeyError
 \<and> parsemat_text float_of_literal new_model
      ([''newmtl red\<newline>''] @ '' Ka x\<newline>'' # [''Kd 1 0 0\<newline>'']) = Inl ValueError"
proof -
  have pre: "parsemat_lines float_of_literal \<lparr>matname = None, mat = None, self = new_model\<rparr>
      [''newmtl red\<newline>''] = Inr in_progress"
    by (simp add: in_progress_def string_defs loader_defs)
  have kw: "''Ks'' \<in> set colour_keywords" "''Ka'' \<in> set colour_keywords"
    by (simp_all add: colour_keywords_def)
  have a: "split ''Ks 1 0 0 1\<newline>'' = [''Ks'', ''1'', ''0'', ''0'', ''1'']"
    and b: "split '' Ka 1\<newline>'' = [''Ka'', ''1'']"
    and c: "split '' Ka x\<newline>'' = [''Ka'', ''x'']"
    by (simp_all add: string_defs)
  have fa: "floats float_of_literal [''1'', ''0'', ''0'', ''1''] = Inr [1, 0, 0, 1]"
    and fb: "floats float_of_literal [''1''] = Inr [1]"
    and fc: "floats float_of_literal [''x''] = Inl ValueError"
    by (simp_all add: string_defs)
  have ws: "isspace (hd '' Ka 1\<newline>'')" "isspace (hd '' Ka x\<newline>'')"
    by (simp_all add: isspace_def)
  from colour_channel_is_second_character[OF pre a kw(1), unfolded fa]
  have 1: "parsemat_line float_of_literal in_progress ''Ks 1 0 0 1\<newline>''
     = Inr (in_progress\<lparr>mat := Some [[0, 0, 0, 0], [0, 0, 0, 0], [1, 0, 0, 1], [0, 0, 0, 0]]\<rparr>)"
    by (simp add: channel_def in_progress_def expand_colour_def default_colour_def
        numeral_eq_Suc)
  from colour_channel_is_second_character[OF pre b kw(2), of "[''Kd 1 0 0\<newline>'']",
      unfolded fb] ws(1)
  have 2: "parsemat_line float_of_literal in_progress '' Ka 1\<newline>'' = Inl KeyError"
    and 3: "parsemat_text float_of_literal new_model
      ([''newmtl red\<newline>''] @ '' Ka 1\<newline>'' # [''Kd 1 0 0\<newline>'']) = Inl KeyError"
    by simp_all
  from colour_channel_is_second_character[OF pre c kw(2), of "[''Kd 1 0 0\<newline>'']",
      unfolded fc] ws(2)
  have 4: "parsemat_text float_of_literal new_model
      ([''newmtl red\<newline>''] @ '' Ka x\<newline>'' # [''Kd 1 0 0\<newline>'']) = Inl ValueError"
    by simp
  from pre 1 2 3 4 show ?thesis by blast
qed

text \<open>
  A colour record with leading whitespace and a value that does not convert fails with
  \<^verbatim>\<open>ValueError\<close>, not with a lookup error.
\<close>

theorem unconverted_value_counterexample:
  "isspace (hd '' Ka x\<newline>'')
 \<and> split '' Ka x\<newline>'' = [''Ka'', ''x'']
 \<and> parsemat_line float_of_literal in_progress '' Ka x\<newline>'' = Inl ValueError
 \<and> parsemat_text float_of_literal new_model [''newmtl red\<newline>'', '' Ka x\<newline>'']
     = Inl ValueError"
  by (simp add: in_progress_def string_defs loader_defs)

subsection \<open>C10\<close>

text \<open>
  Claim C10. When a colour record comes before any \<^verbatim>\<open>newmtl\<close> record, parsing the
  library fails: with \<^verbatim>\<open>ValueError\<close>, \<^verbatim>\<open>KeyError\<close> or \<^verbatim>\<open>TypeError\<close>. When it is the first
  colour record, starts its line and its values convert, the failure is the
  \<^verbatim>\<open>TypeError\<close> of storing into the \<^verbatim>\<open>None\<close> that \<^verbatim>\<open>mat\<close> still is.
\<close>

theorem colour_before_newmtl_fails:
  assumes nonew: "\<forall>l\<in>set pre. take 1 (split l) \<noteq> [''newmtl'']"
      and kw: "split line = kw # toks" "kw \<in> set colour_keywords"
  shows "parsemat_text flt ob (pre @ line # rest) \<in> {Inl ValueError, Inl KeyError, Inl TypeError}
       \<and> ((\<forall>l\<in>set pre. \<forall>k. take 1 (split l) = [k] \<longrightarrow> k \<notin> set colour_keywords)
            \<and> \<not> isspace (hd line) \<and> floats flt toks = Inr color \<longrightarrow>
          parsemat_text flt ob (pre @ line # rest) = Inl TypeError)"
proof -
  let ?st = "\<lparr>matname = None, mat = None, self = ob\<rparr>"
  have none: "mat ?st = None" by simp
  have fails: "parsemat_text flt ob (pre @ line # rest)
                 \<in> {Inl ValueError, Inl KeyError, Inl TypeError}"
    using lines_without_material[OF none nonew, of flt]
      colour_without_material[OF none kw, of flt]
    by (auto simp: parsemat_text_def parsemat_lines_append)
  have "parsemat_text flt ob (pre @ line # rest) = Inl TypeError"
    if norec: "\<forall>l\<in>set pre. \<forall>k. take 1 (split l) = [k] \<longrightarrow> k \<notin> set colour_keywords"
      and lead: "\<not> isspace (hd line)" and vals: "floats flt toks = Inr color"
  proof -
    have pre: "parsemat_lines flt ?st pre = Inr ?st"
      by (rule lines_without_records[OF nonew norec])
    from colour_line_shape[OF kw] lead obtain c1 r k where
      line: "line = CHR ''K'' # c1 # r" and "channel c1 = Some k"
      by (auto split: if_splits)
    then have "parsemat_line flt ?st line = Inl TypeError"
      unfolding parsemat_line_colour[OF kw] using vals by (simp add: assign_colour_def)
    with pre show ?thesis by (simp add: parsemat_text_def parsemat_lines_append)
  qed
  with fails show ?thesis by blast
qed

text \<open>The theorem at concrete inputs.\<close>

theorem colour_before_newmtl_fails_witness:
  "parsemat_text float_of_literal new_model
      ([''# colours\<newline>'', ''\<newline>''] @ ''Kd 1 0 0\<newline>'' # [''newmtl red\<newline>''])
     = Inl TypeError
 \<and> parsemat_text float_of_literal new_model
      ([''Ka x\<newline>''] @ ''Kd 1 0 0\<newline>'' # [''newmtl red\<newline>''])
     \<in> {Inl ValueError, Inl KeyError, Inl TypeError}"
proof -
  have nonew: "\<forall>l\<in>set [''# colours\<newline>'', ''\<newline>'']. take 1 (split l) \<noteq> [''newmtl'']"
    and nonew': "\<forall>l\<in>set [''Ka x\<newline>'']. take 1 (split l) \<noteq> [''newmtl'']"
    by (simp_all add: string_defs)
  have norec: "\<forall>l\<in>set [''# colours\<newline>'', ''\<newline>''].
                 \<forall>k. take 1 (split l) = [k] \<longrightarrow> k \<notin> set colour_keywords"
    by (simp add: string_defs colour_keywords_def)
  have a: "split ''Kd 1 0 0\<newline>'' = [''Kd'', ''1'', ''0'', ''0'']" by (simp add: string_defs)
  have kw: "''Kd'' \<in> set colour_keywords" by (simp add: colour_keywords_def)
  have lead: "\<not> isspace (hd ''Kd 1 0 0\<newline>'')" by (simp add: isspace_def)
  have vals: "floats float_of_literal [''1'', ''0'', ''0''] = Inr [1, 0, 0]"
    by (simp add: string_defs)
  from colour_before_newmtl_fails[OF nonew a kw, of float_of_literal new_model
      "[''newmtl red\<newline>'']" "[1, 0, 0]"] norec lead vals
  have 1: "parsemat_text float_of_literal new_model
      ([''# colours\<newline>'', ''\<newline>''] @ ''Kd 1 0 0\<newline>'' # [''newmtl red\<newline>''])
     = Inl TypeError" by blast
  from colour_before_newmtl_fails[OF nonew' a kw, of float_of_literal new_model
      "[''newmtl red\<newline>'']"]
  have 2: "parsemat_text float_of_literal new_model
      ([''Ka x\<newline>''] @ ''Kd 1 0 0\<newline>'' # [''newmtl red\<newline>''])
     \<in> {Inl ValueError, Inl KeyError, Inl TypeError}" by blast
  from 1 2 show ?thesis by blast
qed

end
